theory Spec2Isabelle
  imports Main "HOL-Library.Sublist" "HOL-Library.Word"
begin

section \<open>Strings\<close>

text \<open>
  A Go \<^verbatim>\<open>string\<close> is a sequence of bytes; it is modelled as \<^typ>\<open>string\<close>
  (a list of 8-bit characters), and \<^verbatim>\<open>len(s)\<close> is \<^term>\<open>length s\<close>.
  The functions of Go's \<^verbatim>\<open>strings\<close> package that the program calls are
  written out below the way the package computes them.
\<close>

text \<open>\<^verbatim>\<open>strings.HasPrefix(s, prefix)\<close>:
  \<^verbatim>\<open>len(s) >= len(prefix) && s[:len(prefix)] == prefix\<close>.\<close>

definition HasPrefix :: "string \<Rightarrow> string \<Rightarrow> bool" where
  "HasPrefix s pre \<longleftrightarrow> length pre \<le> length s \<and> take (length pre) s = pre"

text \<open>\<^verbatim>\<open>strings.HasSuffix(s, suffix)\<close>:
  \<^verbatim>\<open>len(s) >= len(suffix) && s[len(s)-len(suffix):] == suffix\<close>.\<close>

definition HasSuffix :: "string \<Rightarrow> string \<Rightarrow> bool" where
  "HasSuffix s suf \<longleftrightarrow> length suf \<le> length s \<and> drop (length s - length suf) s = suf"

text \<open>\<^verbatim>\<open>strings.Contains(s, substr)\<close>: \<^verbatim>\<open>substr\<close> occurs at some index of
  \<^verbatim>\<open>s\<close>; the indices are tried from the left.\<close>

fun Contains :: "string \<Rightarrow> string \<Rightarrow> bool" where
  "Contains [] sub = HasPrefix [] sub"
| "Contains (c # cs) sub = (HasPrefix (c # cs) sub \<or> Contains cs sub)"

text \<open>
  \<^verbatim>\<open>strings.TrimSpace(s)\<close> removes every leading and every trailing white-space
  rune, as \<^verbatim>\<open>unicode.IsSpace\<close> defines white space, from the UTF-8 text \<^verbatim>\<open>s\<close>.
  A rune is white space exactly when its UTF-8 encoding is one of the byte
  sequences of \<open>space_runes\<close>: the six ASCII characters tab, line feed,
  vertical tab, form feed, carriage return and space, then U+0085, U+00A0,
  U+1680, U+2000 to U+200A, U+2028, U+2029, U+202F, U+205F and U+3000.
  Bytes that are not valid UTF-8 decode to the error rune, which is not white
  space, so such bytes stop the trimming.
\<close>

definition space_runes :: "string list" where
  "space_runes =
    [[CHR 0x09], [CHR 0x0A], [CHR 0x0B], [CHR 0x0C], [CHR 0x0D], [CHR 0x20],
     [CHR 0xC2, CHR 0x85], [CHR 0xC2, CHR 0xA0],
     [CHR 0xE1, CHR 0x9A, CHR 0x80],
     [CHR 0xE2, CHR 0x80, CHR 0x80], [CHR 0xE2, CHR 0x80, CHR 0x81],
     [CHR 0xE2, CHR 0x80, CHR 0x82], [CHR 0xE2, CHR 0x80, CHR 0x83],
     [CHR 0xE2, CHR 0x80, CHR 0x84], [CHR 0xE2, CHR 0x80, CHR 0x85],
     [CHR 0xE2, CHR 0x80, CHR 0x86], [CHR 0xE2, CHR 0x80, CHR 0x87],
     [CHR 0xE2, CHR 0x80, CHR 0x88], [CHR 0xE2, CHR 0x80, CHR 0x89],
     [CHR 0xE2, CHR 0x80, CHR 0x8A],
     [CHR 0xE2, CHR 0x80, CHR 0xA8], [CHR 0xE2, CHR 0x80, CHR 0xA9],
     [CHR 0xE2, CHR 0x80, CHR 0xAF],
     [CHR 0xE2, CHR 0x81, CHR 0x9F],
     [CHR 0xE3, CHR 0x80, CHR 0x80]]"

text \<open>The number of bytes of the white-space rune that \<open>s\<close> starts with
  (ends with), and 0 when the first (last) rune of \<open>s\<close> is not white space.\<close>

definition leading_space :: "string \<Rightarrow> nat" where
  "leading_space s =
     (case find (\<lambda>q. HasPrefix s q) space_runes of None \<Rightarrow> 0 | Some q \<Rightarrow> length q)"

definition trailing_space :: "string \<Rightarrow> nat" where
  "trailing_space s =
     (case find (\<lambda>q. HasSuffix s q) space_runes of None \<Rightarrow> 0 | Some q \<Rightarrow> length q)"

lemma leading_space_le: "leading_space s \<le> length s"
  by (auto simp: leading_space_def HasPrefix_def split: option.splits dest!: find_Some_iff[THEN iffD1])

lemma trailing_space_le: "trailing_space s \<le> length s"
  by (auto simp: trailing_space_def HasSuffix_def split: option.splits dest!: find_Some_iff[THEN iffD1])

function TrimLeft :: "string \<Rightarrow> string" where
  "TrimLeft s = (if leading_space s = 0 then s else TrimLeft (drop (leading_space s) s))"
  by pat_completeness auto
termination
proof (relation "measure length")
  fix s :: string
  assume "leading_space s \<noteq> 0"
  then show "(drop (leading_space s) s, s) \<in> measure length"
    using leading_space_le [of s] by auto
qed simp

function TrimRight :: "string \<Rightarrow> string" where
  "TrimRight s =
     (if trailing_space s = 0 then s else TrimRight (take (length s - trailing_space s) s))"
  by pat_completeness auto
termination
proof (relation "measure length")
  fix s :: string
  assume "trailing_space s \<noteq> 0"
  then show "(take (length s - trailing_space s) s, s) \<in> measure length"
    using trailing_space_le [of s] by auto
qed simp

definition TrimSpace :: "string \<Rightarrow> string" where
  "TrimSpace s = TrimRight (TrimLeft s)"

section \<open>The image signature detector (provider.go)\<close>

text \<open>
  \<^verbatim>\<open>formatImageForAPI\<close>. The calls to the logger write nothing the program
  reads back and are left out; the slices \<^verbatim>\<open>imgBase64[:min(30, len(imgBase64))]\<close>
  taken for the log are within range for every string.
\<close>

definition formatImageForAPI :: "string \<Rightarrow> string" where
  "formatImageForAPI imgBase64 =
     (if length imgBase64 = 0 then ''''
      else
        let imgBase64 = TrimSpace imgBase64 in
        if HasPrefix imgBase64 ''data:image/'' \<and> Contains imgBase64 '';base64,'' then imgBase64
        else if HasPrefix imgBase64 ''/9j/'' then ''data:image/jpeg;base64,'' @ imgBase64
        else if HasPrefix imgBase64 ''iVBOR'' then ''data:image/png;base64,'' @ imgBase64
        else if HasPrefix imgBase64 ''R0lGOD'' then ''data:image/gif;base64,'' @ imgBase64
        else if HasPrefix imgBase64 ''UklGR'' then ''data:image/webp;base64,'' @ imgBase64
        else ''data:image/jpeg;base64,'' @ imgBase64)"

section \<open>The model alias resolver (provider.go)\<close>

text \<open>A Go \<^verbatim>\<open>error\<close> is modelled by its message, the string \<^verbatim>\<open>err.Error()\<close>.\<close>

type_synonym error = string

text \<open>\<^verbatim>\<open>strings.Split(s, sep)\<close> for a separator of one byte, as \<^verbatim>\<open>"/"\<close> in
  \<^verbatim>\<open>GetModels\<close>: the pieces of \<^verbatim>\<open>s\<close> between the occurrences of the separator.\<close>

fun Split :: "string \<Rightarrow> char \<Rightarrow> string list" where
  "Split [] sep = [[]]"
| "Split (c # cs) sep =
     (if c = sep then [] # Split cs sep
      else (case Split cs sep of [] \<Rightarrow> [[c]] | p # ps \<Rightarrow> (c # p) # ps))"

text \<open>\<^verbatim>\<open>openai.Model\<close>, of which the program reads the field \<^verbatim>\<open>ID\<close> only.\<close>

record openai_Model =
  ID :: string

record ModelDetails =
  ParentModel :: string
  Format :: string
  Family :: string
  Families :: "string list"
  ParameterSize :: string
  QuantizationLevel :: string

record Model =
  Name :: string
  Model :: string
  ModifiedAt :: string
  Size :: int
  Digest :: string
  Details :: ModelDetails

text \<open>\<^verbatim>\<open>OpenrouterProvider\<close>: the field \<^verbatim>\<open>modelNames\<close> is the catalog cache. The
  field \<^verbatim>\<open>client\<close> is the connection to the upstream; what its calls return
  is a parameter of the functions below.\<close>

record OpenrouterProvider =
  modelNames :: "string list"

text \<open>The loop of \<^verbatim>\<open>GetModels\<close> over \<^verbatim>\<open>modelsResponse.Models\<close>.
  \<^verbatim>\<open>parts[len(parts)-1]\<close> is within range, since \<^verbatim>\<open>Split\<close> returns at least
  one piece.\<close>

fun GetModels_loop ::
  "string \<Rightarrow> openai_Model list \<Rightarrow> Model list \<times> OpenrouterProvider
     \<Rightarrow> Model list \<times> OpenrouterProvider" where
  "GetModels_loop currentTime [] (models, prov) = (models, prov)"
| "GetModels_loop currentTime (apiModel # rest) (models, prov) =
     (let parts = Split (ID apiModel) CHR ''/'';
          name = parts ! (length parts - 1);
          prov = prov\<lparr>modelNames := modelNames prov @ [ID apiModel]\<rparr>;
          model = \<lparr>Name = name, Model = name, ModifiedAt = currentTime, Size = 0,
                   Digest = name,
                   Details = \<lparr>ParentModel = '''', Format = ''gguf'', Family = ''claude'',
                              Families = [''claude''], ParameterSize = ''175B'',
                              QuantizationLevel = ''Q4_K_M''\<rparr>\<rparr>
      in GetModels_loop currentTime rest (models @ [model], prov))"

text \<open>\<^verbatim>\<open>GetModels\<close>. \<open>currentTime\<close> is the formatted reading of the clock and
  \<open>listModels\<close> is what \<^verbatim>\<open>o.client.ListModels\<close> returns to this call: an error,
  or the models of the upstream's answer.\<close>

definition GetModels ::
  "string \<Rightarrow> error + openai_Model list \<Rightarrow> OpenrouterProvider
     \<Rightarrow> (error + Model list) \<times> OpenrouterProvider" where
  "GetModels currentTime listModels prov =
     (case listModels of
        Inl err \<Rightarrow> (Inl err, prov)
      | Inr modelsResponse \<Rightarrow>
          (let (models, prov) =
                 GetModels_loop currentTime modelsResponse ([], prov\<lparr>modelNames := []\<rparr>)
           in (Inr models, prov)))"

text \<open>\<^verbatim>\<open>GetFullModelName\<close>. Each of its two loops returns at the first cached
  name that passes the test, which is \<^const>\<open>find\<close>.\<close>

definition GetFullModelName ::
  "string \<Rightarrow> string \<Rightarrow> error + openai_Model list \<Rightarrow> OpenrouterProvider
     \<Rightarrow> (error + string) \<times> OpenrouterProvider" where
  "GetFullModelName alias currentTime listModels prov =
     (let (err, prov) =
            (if length (modelNames prov) = 0
             then (case GetModels currentTime listModels prov of
                     (Inl err, prov') \<Rightarrow> (Some err, prov')
                   | (Inr _, prov') \<Rightarrow> (None, prov'))
             else (None, prov))
      in case err of
           Some err \<Rightarrow> (Inl (''failed to get models: '' @ err), prov)
         | None \<Rightarrow>
             (case find (\<lambda>fullName. fullName = alias) (modelNames prov) of
                Some fullName \<Rightarrow> (Inr fullName, prov)
              | None \<Rightarrow>
                  (case find (\<lambda>fullName. HasSuffix fullName alias) (modelNames prov) of
                     Some fullName \<Rightarrow> (Inr fullName, prov)
                   | None \<Rightarrow> (Inr alias, prov))))"

section \<open>Messages and the upstream (the go-openai types the program uses)\<close>

text \<open>
  \<^verbatim>\<open>openai.ChatMessagePart\<close> is a struct whose field \<^verbatim>\<open>Type\<close> tells which of
  \<^verbatim>\<open>Text\<close> and \<^verbatim>\<open>ImageURL\<close> is set. The program builds two shapes only:
  \<^verbatim>\<open>{Type: ChatMessagePartTypeText, Text: t}\<close> and
  \<^verbatim>\<open>{Type: ChatMessagePartTypeImageURL, ImageURL: &ChatMessageImageURL{URL: u}}\<close>.
\<close>

datatype ChatMessagePart = TextPart string | ImageURLPart string

text \<open>\<^verbatim>\<open>MessageWithImages\<close>, the message of the request body of \<^verbatim>\<open>/api/chat\<close>. A
  nil slice and an empty one are both \<open>[]\<close>: the program only takes their
  length and ranges over them.\<close>

record MessageWithImages =
  Role :: string
  Content :: string
  Images :: "string list"

text \<open>\<^verbatim>\<open>openai.ChatCompletionMessage\<close>; the program sets these three fields.\<close>

record ChatCompletionMessage =
  Role :: string
  Content :: string
  MultiContent :: "ChatMessagePart list"

definition ChatMessageRoleUser :: string where
  "ChatMessageRoleUser = ''user''"

definition ChatMessageRoleSystem :: string where
  "ChatMessageRoleSystem = ''system''"

text \<open>\<^verbatim>\<open>openai.ChatCompletionResponse\<close> with the fields the handlers read;
  \<^verbatim>\<open>Choices[i].Message.Content\<close> is \<open>MessageContent\<close>. Go's \<^verbatim>\<open>int\<close> is a
  64-bit integer whose arithmetic wraps around.\<close>

record ChatCompletionChoice =
  MessageContent :: string
  FinishReason :: string

record Usage =
  PromptTokens :: "64 word"
  CompletionTokens :: "64 word"
  TotalTokens :: "64 word"

record ChatCompletionResponse =
  Choices :: "ChatCompletionChoice list"
  Usage :: Usage

text \<open>\<^verbatim>\<open>openai.ChatCompletionStreamResponse\<close>, one event of a stream;
  \<^verbatim>\<open>Choices[i].Delta.Content\<close> is \<open>DeltaContent\<close>.\<close>

record ChatCompletionStreamChoice =
  DeltaContent :: string
  FinishReason :: string

record ChatCompletionStreamResponse =
  Choices :: "ChatCompletionStreamChoice list"

text \<open>
  An open \<^verbatim>\<open>*openai.ChatCompletionStream\<close> is modelled by what its successive
  \<^verbatim>\<open>Recv\<close> calls return: the events the upstream delivers, and then either
  \<^verbatim>\<open>io.EOF\<close> or another error.
\<close>

datatype stream_end = EOF | RecvError error

record ChatCompletionStream =
  events :: "ChatCompletionStreamResponse list"
  ending :: stream_end

text \<open>What the calls of the upstream client return. The two completion calls
  receive the request: the model and the messages.\<close>

record upstream =
  ListModels :: "error + openai_Model list"
  CreateChatCompletion ::
    "string \<Rightarrow> ChatCompletionMessage list \<Rightarrow> error + ChatCompletionResponse"
  CreateChatCompletionStream ::
    "string \<Rightarrow> ChatCompletionMessage list \<Rightarrow> error + ChatCompletionStream"

section \<open>The message normalizer of \<^verbatim>\<open>/api/chat\<close> (main.go)\<close>

text \<open>\<^verbatim>\<open>CustomChatRequest\<close>, the parsed request body. \<^verbatim>\<open>Stream\<close> is a pointer
  to a bool: \<open>None\<close> when the body has no such field. The fields \<^verbatim>\<open>Options\<close>
  and \<^verbatim>\<open>KeepAlive\<close> are never read.\<close>

record CustomChatRequest =
  Model :: string
  Messages :: "MessageWithImages list"
  Stream :: "bool option"
  Images :: "string list"

text \<open>The conversion of the custom messages to standard messages.\<close>

definition stdMsg :: "MessageWithImages \<Rightarrow> ChatCompletionMessage" where
  "stdMsg customMsg =
     \<lparr>Role = MessageWithImages.Role customMsg,
      Content = MessageWithImages.Content customMsg,
      MultiContent = []\<rparr>"

text \<open>The inner loop over \<^verbatim>\<open>customMsg.Images\<close>: an empty entry is skipped
  (\<^verbatim>\<open>continue\<close>), every other entry appends one image part.\<close>

fun message_images_loop :: "string list \<Rightarrow> ChatMessagePart list \<Rightarrow> ChatMessagePart list" where
  "message_images_loop [] contentItems = contentItems"
| "message_images_loop (imgBase64 # rest) contentItems =
     (if length imgBase64 = 0 then message_images_loop rest contentItems
      else message_images_loop rest
             (contentItems @ [ImageURLPart (formatImageForAPI imgBase64)]))"

text \<open>The body of the loop over \<^verbatim>\<open>customRequest.Messages\<close>, which rewrites
  \<^verbatim>\<open>request.Messages[i]\<close>, the standard message made from the same entry.\<close>

definition process_message :: "MessageWithImages \<Rightarrow> ChatCompletionMessage \<Rightarrow> ChatCompletionMessage" where
  "process_message customMsg msg =
     (if MessageWithImages.Role customMsg \<noteq> ChatMessageRoleUser
         \<or> length (MessageWithImages.Images customMsg) = 0
      then msg
      else
        let prompt = Content msg;
            contentItems = [TextPart prompt];
            contentItems = message_images_loop (MessageWithImages.Images customMsg) contentItems
        in msg\<lparr>Content := '''', MultiContent := contentItems\<rparr>)"

text \<open>The loop itself. \<^verbatim>\<open>request.Messages\<close> was made from
  \<^verbatim>\<open>customRequest.Messages\<close> entry by entry, so the two lists have the same
  length, the index \<^verbatim>\<open>i\<close> is within range and the second equation is
  reached with both lists used up.\<close>

fun process_messages ::
  "MessageWithImages list \<Rightarrow> ChatCompletionMessage list \<Rightarrow> ChatCompletionMessage list" where
  "process_messages (customMsg # customMsgs) (msg # msgs) =
     process_message customMsg msg # process_messages customMsgs msgs"
| "process_messages _ msgs = msgs"

text \<open>The search for the last user message: \<^verbatim>\<open>i\<close> runs from
  \<^verbatim>\<open>len(request.Messages) - 1\<close> down to 0. The argument is \<^verbatim>\<open>i + 1\<close>, and
  \<open>None\<close> is the index \<^verbatim>\<open>-1\<close>.\<close>

fun lastUserMsgIndex_from :: "ChatCompletionMessage list \<Rightarrow> nat \<Rightarrow> nat option" where
  "lastUserMsgIndex_from msgs 0 = None"
| "lastUserMsgIndex_from msgs (Suc i) =
     (if Role (msgs ! i) = ChatMessageRoleUser then Some i
      else lastUserMsgIndex_from msgs i)"

text \<open>The loop over the top-level \<^verbatim>\<open>request.Images\<close>: every entry appends one
  image part.\<close>

fun top_level_images_loop :: "string list \<Rightarrow> ChatMessagePart list \<Rightarrow> ChatMessagePart list" where
  "top_level_images_loop [] contentItems = contentItems"
| "top_level_images_loop (imgBase64 # rest) contentItems =
     top_level_images_loop rest (contentItems @ [ImageURLPart (formatImageForAPI imgBase64)])"

definition process_top_level_images ::
  "string list \<Rightarrow> ChatCompletionMessage list \<Rightarrow> ChatCompletionMessage list" where
  "process_top_level_images images msgs =
     (if length images > 0 \<and> length msgs > 0 then
        (case lastUserMsgIndex_from msgs (length msgs) of
           None \<Rightarrow> msgs
         | Some lastUserMsgIndex \<Rightarrow>
             let userMsg = msgs ! lastUserMsgIndex;
                 prompt = Content userMsg;
                 contentItems =
                   (if length (MultiContent userMsg) > 0 then MultiContent userMsg
                    else [TextPart prompt]);
                 contentItems = top_level_images_loop images contentItems
             in msgs[lastUserMsgIndex := userMsg\<lparr>Content := '''', MultiContent := contentItems\<rparr>])
      else msgs)"

text \<open>\<^verbatim>\<open>request.Messages\<close> as the handler of \<^verbatim>\<open>/api/chat\<close> has it when it
  turns to the upstream.\<close>

definition chat_messages :: "CustomChatRequest \<Rightarrow> ChatCompletionMessage list" where
  "chat_messages customRequest =
     process_top_level_images (Images customRequest)
       (process_messages (Messages customRequest) (map stdMsg (Messages customRequest)))"

section \<open>The messages of \<^verbatim>\<open>/api/generate\<close> (provider.go)\<close>

text \<open>The loop over \<^verbatim>\<open>images\<close> in \<^verbatim>\<open>Generate\<close> and \<^verbatim>\<open>GenerateStream\<close>.\<close>

fun generate_images_loop :: "string list \<Rightarrow> ChatMessagePart list \<Rightarrow> ChatMessagePart list" where
  "generate_images_loop [] contentItems = contentItems"
| "generate_images_loop (imgBase64 # rest) contentItems =
     (if length imgBase64 = 0 then generate_images_loop rest contentItems
      else generate_images_loop rest
             (contentItems @ [ImageURLPart (formatImageForAPI imgBase64)]))"

text \<open>The messages that \<^verbatim>\<open>Generate\<close> and \<^verbatim>\<open>GenerateStream\<close> build, by the same
  statements in both. \<^verbatim>\<open>messages[len(messages)-1]\<close> is within range: the list
  holds the user message.\<close>

definition generate_messages :: "string \<Rightarrow> string \<Rightarrow> string list \<Rightarrow> ChatCompletionMessage list" where
  "generate_messages prompt systemPrompt images =
     (let messages = [\<lparr>Role = ChatMessageRoleUser, Content = prompt, MultiContent = []\<rparr>];
          messages =
            (if systemPrompt \<noteq> ''''
             then [\<lparr>Role = ChatMessageRoleSystem, Content = systemPrompt, MultiContent = []\<rparr>]
                    @ messages
             else messages)
      in if length images > 0 then
           let contentItems = [TextPart prompt];
               contentItems = generate_images_loop images contentItems
           in messages[length messages - 1 :=
                \<lparr>Role = ChatMessageRoleUser, Content = '''', MultiContent = contentItems\<rparr>]
         else messages)"

section \<open>The calls of the provider (provider.go)\<close>

text \<open>\<^verbatim>\<open>Chat\<close>, \<^verbatim>\<open>ChatStream\<close>, \<^verbatim>\<open>Generate\<close> and \<^verbatim>\<open>GenerateStream\<close> build the
  request and hand the upstream's answer or error back unchanged.\<close>

definition Chat ::
  "upstream \<Rightarrow> ChatCompletionMessage list \<Rightarrow> string \<Rightarrow> error + ChatCompletionResponse" where
  "Chat up messages modelName = CreateChatCompletion up modelName messages"

definition ChatStream ::
  "upstream \<Rightarrow> ChatCompletionMessage list \<Rightarrow> string \<Rightarrow> error + ChatCompletionStream" where
  "ChatStream up messages modelName = CreateChatCompletionStream up modelName messages"

definition Generate ::
  "upstream \<Rightarrow> string \<Rightarrow> string \<Rightarrow> string \<Rightarrow> string list \<Rightarrow> error + ChatCompletionResponse" where
  "Generate up prompt modelName systemPrompt images =
     CreateChatCompletion up modelName (generate_messages prompt systemPrompt images)"

definition GenerateStream ::
  "upstream \<Rightarrow> string \<Rightarrow> string \<Rightarrow> string \<Rightarrow> string list \<Rightarrow> error + ChatCompletionStream" where
  "GenerateStream up prompt modelName systemPrompt images =
     CreateChatCompletionStream up modelName (generate_messages prompt systemPrompt images)"

section \<open>The handlers (main.go)\<close>

text \<open>
  A JSON value as the handlers build it before \<^verbatim>\<open>json.Marshal\<close>; an object
  lists its fields in the order of the source. \<^verbatim>\<open>json.Marshal\<close> does not fail on
  maps of strings, numbers, booleans and slices of numbers, and its output
  holds no line break, so each \<^verbatim>\<open>fmt.Fprintf(w, "%s\n", ...)\<close> writes one line.
\<close>

datatype json =
  JString string | JNumber int | JBool bool | JArray "json list" | JObject "(string \<times> json) list"

text \<open>The field \<open>k\<close> of an object.\<close>

fun field :: "json \<Rightarrow> string \<Rightarrow> json option" where
  "field (JObject kvs) k = map_of kvs k"
| "field _ k = None"

text \<open>
  What a handler leaves behind: either one JSON response with its status
  (\<^verbatim>\<open>c.JSON(status, body)\<close>), or the lines written to the NDJSON stream, in
  order, and how the handler ended. \<open>Panicked\<close> is the run-time panic of an
  index out of range.
\<close>

datatype handler_exit = Returned | Panicked

datatype http_result = JSON nat json | NDJSON "json list" handler_exit

definition StatusOK :: nat where "StatusOK = 200"
definition StatusNotFound :: nat where "StatusNotFound = 404"
definition StatusInternalServerError :: nat where "StatusInternalServerError = 500"

text \<open>\<^verbatim>\<open>gin.H{"error": msg}\<close>.\<close>

definition error_body :: "string \<Rightarrow> json" where
  "error_body msg = JObject [(''error'', JString msg)]"

text \<open>How a streaming loop is left: by \<^verbatim>\<open>break\<close> at \<^verbatim>\<open>io.EOF\<close>, with the value of
  \<^verbatim>\<open>lastFinishReason\<close>; by \<^verbatim>\<open>return\<close> after the error line; or by the panic of
  \<^verbatim>\<open>response.Choices[0]\<close> on an empty \<^verbatim>\<open>Choices\<close>.\<close>

datatype loop_exit = LoopBreak string | LoopReturn | LoopPanic

text \<open>
  In the handlers, \<open>clock k\<close> is the formatted reading of \<^verbatim>\<open>time.Now()\<close>:
  reading 0 is the one \<^verbatim>\<open>GetModels\<close> takes, reading \<open>k + 1\<close> the one taken for
  the response line that follows \<open>k\<close> written lines.
\<close>

subsection \<open>\<^verbatim>\<open>/api/chat\<close>\<close>

text \<open>The streaming loop of \<^verbatim>\<open>/api/chat\<close>; \<open>w\<close> holds the lines written so far.\<close>

fun chat_stream_loop ::
  "string \<Rightarrow> (nat \<Rightarrow> string) \<Rightarrow> ChatCompletionStreamResponse list \<Rightarrow> stream_end
     \<Rightarrow> string \<Rightarrow> json list \<Rightarrow> loop_exit \<times> json list" where
  "chat_stream_loop fullModelName clock [] EOF lastFinishReason w =
     (LoopBreak lastFinishReason, w)"
| "chat_stream_loop fullModelName clock [] (RecvError err) lastFinishReason w =
     (LoopReturn, w @ [JObject [(''error'', JString (''Stream error: '' @ err))]])"
| "chat_stream_loop fullModelName clock (response # rest) fin lastFinishReason w =
     (let lastFinishReason =
            (if length (Choices response) > 0 \<and> FinishReason (Choices response ! 0) \<noteq> ''''
             then FinishReason (Choices response ! 0) else lastFinishReason)
      in if length (Choices response) = 0 then (LoopPanic, w)
         else
           let responseJSON =
                 JObject [(''model'', JString fullModelName),
                          (''created_at'', JString (clock (Suc (length w)))),
                          (''message'', JObject [(''role'', JString ''assistant''),
                             (''content'', JString (DeltaContent (Choices response ! 0)))]),
                          (''done'', JBool False)]
           in chat_stream_loop fullModelName clock rest fin lastFinishReason
                (w @ [responseJSON]))"

text \<open>The streaming part of the handler, from the open stream on.\<close>

definition chat_stream :: "string \<Rightarrow> (nat \<Rightarrow> string) \<Rightarrow> ChatCompletionStream \<Rightarrow> http_result" where
  "chat_stream fullModelName clock stream =
     (case chat_stream_loop fullModelName clock (events stream) (ending stream) '''' [] of
        (LoopPanic, w) \<Rightarrow> NDJSON w Panicked
      | (LoopReturn, w) \<Rightarrow> NDJSON w Returned
      | (LoopBreak lastFinishReason, w) \<Rightarrow>
          let lastFinishReason = (if lastFinishReason = '''' then ''stop'' else lastFinishReason);
              finalResponse =
                JObject [(''model'', JString fullModelName),
                         (''created_at'', JString (clock (Suc (length w)))),
                         (''message'', JObject [(''role'', JString ''assistant''),
                            (''content'', JString '''')]),
                         (''done'', JBool True),
                         (''finish_reason'', JString lastFinishReason),
                         (''total_duration'', JNumber 0),
                         (''load_duration'', JNumber 0),
                         (''prompt_eval_count'', JNumber 0),
                         (''eval_count'', JNumber 0),
                         (''eval_duration'', JNumber 0)]
          in NDJSON (w @ [finalResponse]) Returned)"

text \<open>The non-streaming answer of \<^verbatim>\<open>/api/chat\<close>, from the upstream's response on.\<close>

definition chat_response :: "string \<Rightarrow> string \<Rightarrow> ChatCompletionResponse \<Rightarrow> http_result" where
  "chat_response fullModelName created response =
     (let choices = ChatCompletionResponse.Choices response in
      if length choices = 0
      then JSON StatusInternalServerError (error_body ''No response from model'')
      else
        let content =
              (if length choices > 0 \<and> MessageContent (choices ! 0) \<noteq> ''''
               then MessageContent (choices ! 0) else '''');
            finishReason =
              (if ChatCompletionChoice.FinishReason (choices ! 0) \<noteq> ''''
               then ChatCompletionChoice.FinishReason (choices ! 0) else ''stop'');
            usage = Usage response
        in JSON StatusOK
             (JObject [(''model'', JString fullModelName),
                       (''created_at'', JString created),
                       (''message'', JObject [(''role'', JString ''assistant''),
                          (''content'', JString content)]),
                       (''done'', JBool True),
                       (''finish_reason'', JString finishReason),
                       (''total_duration'', JNumber (sint (TotalTokens usage * 10))),
                       (''load_duration'', JNumber 0),
                       (''prompt_eval_count'', JNumber (sint (PromptTokens usage))),
                       (''eval_count'', JNumber (sint (CompletionTokens usage))),
                       (''eval_duration'', JNumber (sint (CompletionTokens usage * 10)))]))"

text \<open>
  The handler of \<^verbatim>\<open>/api/chat\<close>, from the parsed body on. A body that cannot be
  read or parsed is answered before any of this runs. gin's response writer
  is an \<^verbatim>\<open>http.Flusher\<close>, so the handler goes on to the loop.
\<close>

definition api_chat ::
  "upstream \<Rightarrow> (nat \<Rightarrow> string) \<Rightarrow> CustomChatRequest \<Rightarrow> OpenrouterProvider
     \<Rightarrow> http_result \<times> OpenrouterProvider" where
  "api_chat up clock customRequest provider =
     (let messages = chat_messages customRequest;
          streamRequested = (case Stream customRequest of None \<Rightarrow> True | Some b \<Rightarrow> b)
      in if \<not> streamRequested then
           (case GetFullModelName (CustomChatRequest.Model customRequest) (clock 0)
                   (ListModels up) provider of
              (Inl err, provider) \<Rightarrow> (JSON StatusNotFound (error_body err), provider)
            | (Inr fullModelName, provider) \<Rightarrow>
                (case Chat up messages fullModelName of
                   Inl err \<Rightarrow> (JSON StatusInternalServerError (error_body err), provider)
                 | Inr response \<Rightarrow> (chat_response fullModelName (clock 1) response, provider)))
         else
           (case GetFullModelName (CustomChatRequest.Model customRequest) (clock 0)
                   (ListModels up) provider of
              (Inl err, provider) \<Rightarrow> (JSON StatusNotFound (error_body err), provider)
            | (Inr fullModelName, provider) \<Rightarrow>
                (case ChatStream up messages fullModelName of
                   Inl err \<Rightarrow> (JSON StatusInternalServerError (error_body err), provider)
                 | Inr stream \<Rightarrow> (chat_stream fullModelName clock stream, provider))))"

subsection \<open>\<^verbatim>\<open>/api/generate\<close>\<close>

text \<open>The parsed request body; the fields \<^verbatim>\<open>Raw\<close>, \<^verbatim>\<open>Format\<close>, \<^verbatim>\<open>Options\<close>,
  \<^verbatim>\<open>Template\<close>, \<^verbatim>\<open>Context\<close> and \<^verbatim>\<open>KeepAlive\<close> are never read.\<close>

record GenerateRequest =
  Model :: string
  Prompt :: string
  System :: string
  Stream :: "bool option"
  Images :: "string list"

fun generate_stream_loop ::
  "string \<Rightarrow> (nat \<Rightarrow> string) \<Rightarrow> ChatCompletionStreamResponse list \<Rightarrow> stream_end
     \<Rightarrow> string \<Rightarrow> json list \<Rightarrow> loop_exit \<times> json list" where
  "generate_stream_loop fullModelName clock [] EOF lastFinishReason w =
     (LoopBreak lastFinishReason, w)"
| "generate_stream_loop fullModelName clock [] (RecvError err) lastFinishReason w =
     (LoopReturn, w @ [JObject [(''error'', JString (''Stream error: '' @ err))]])"
| "generate_stream_loop fullModelName clock (response # rest) fin lastFinishReason w =
     (let lastFinishReason =
            (if length (Choices response) > 0 \<and> FinishReason (Choices response ! 0) \<noteq> ''''
             then FinishReason (Choices response ! 0) else lastFinishReason)
      in if length (Choices response) = 0 then (LoopPanic, w)
         else
           let responseJSON =
                 JObject [(''model'', JString fullModelName),
                          (''created_at'', JString (clock (Suc (length w)))),
                          (''response'', JString (DeltaContent (Choices response ! 0))),
                          (''done'', JBool False)]
           in generate_stream_loop fullModelName clock rest fin lastFinishReason
                (w @ [responseJSON]))"

definition generate_stream :: "string \<Rightarrow> (nat \<Rightarrow> string) \<Rightarrow> ChatCompletionStream \<Rightarrow> http_result" where
  "generate_stream fullModelName clock stream =
     (case generate_stream_loop fullModelName clock (events stream) (ending stream) '''' [] of
        (LoopPanic, w) \<Rightarrow> NDJSON w Panicked
      | (LoopReturn, w) \<Rightarrow> NDJSON w Returned
      | (LoopBreak lastFinishReason, w) \<Rightarrow>
          let lastFinishReason = (if lastFinishReason = '''' then ''stop'' else lastFinishReason);
              finalResponse =
                JObject [(''model'', JString fullModelName),
                         (''created_at'', JString (clock (Suc (length w)))),
                         (''response'', JString ''''),
                         (''done'', JBool True),
                         (''done_reason'', JString lastFinishReason),
                         (''context'', JArray [JNumber 1, JNumber 2, JNumber 3]),
                         (''total_duration'', JNumber 1000000000),
                         (''load_duration'', JNumber 5000000),
                         (''prompt_eval_count'', JNumber 20),
                         (''prompt_eval_duration'', JNumber 200000000),
                         (''eval_count'', JNumber 100),
                         (''eval_duration'', JNumber 800000000)]
          in NDJSON (w @ [finalResponse]) Returned)"

definition generate_response :: "string \<Rightarrow> string \<Rightarrow> ChatCompletionResponse \<Rightarrow> http_result" where
  "generate_response fullModelName created response =
     (let choices = ChatCompletionResponse.Choices response in
      if length choices = 0
      then JSON StatusInternalServerError (error_body ''No response from model'')
      else
        let content =
              (if length choices > 0 \<and> MessageContent (choices ! 0) \<noteq> ''''
               then MessageContent (choices ! 0) else '''');
            finishReason =
              (if ChatCompletionChoice.FinishReason (choices ! 0) \<noteq> ''''
               then ChatCompletionChoice.FinishReason (choices ! 0) else ''stop'');
            usage = Usage response
        in JSON StatusOK
             (JObject [(''model'', JString fullModelName),
                       (''created_at'', JString created),
                       (''response'', JString content),
                       (''done'', JBool True),
                       (''done_reason'', JString finishReason),
                       (''context'', JArray [JNumber 1, JNumber 2, JNumber 3]),
                       (''total_duration'', JNumber (sint (TotalTokens usage * 10000000))),
                       (''load_duration'', JNumber 5000000),
                       (''prompt_eval_count'', JNumber (sint (PromptTokens usage))),
                       (''prompt_eval_duration'', JNumber (sint (PromptTokens usage * 10000000))),
                       (''eval_count'', JNumber (sint (CompletionTokens usage))),
                       (''eval_duration'', JNumber (sint (CompletionTokens usage * 10000000)))]))"

text \<open>The handler of \<^verbatim>\<open>/api/generate\<close>, from the parsed body on.\<close>

definition api_generate ::
  "upstream \<Rightarrow> (nat \<Rightarrow> string) \<Rightarrow> GenerateRequest \<Rightarrow> OpenrouterProvider
     \<Rightarrow> http_result \<times> OpenrouterProvider" where
  "api_generate up clock request provider =
     (let streamRequested = (case Stream request of None \<Rightarrow> True | Some b \<Rightarrow> b)
      in case GetFullModelName (Model request) (clock 0) (ListModels up) provider of
           (Inl err, provider) \<Rightarrow> (JSON StatusNotFound (error_body err), provider)
         | (Inr fullModelName, provider) \<Rightarrow>
             if \<not> streamRequested then
               (case Generate up (Prompt request) fullModelName (System request) (Images request) of
                  Inl err \<Rightarrow> (JSON StatusInternalServerError (error_body err), provider)
                | Inr response \<Rightarrow> (generate_response fullModelName (clock 1) response, provider))
             else
               (case GenerateStream up (Prompt request) fullModelName (System request)
                       (Images request) of
                  Inl err \<Rightarrow> (JSON StatusInternalServerError (error_body err), provider)
                | Inr stream \<Rightarrow> (generate_stream fullModelName clock stream, provider)))"

section \<open>Facts about the string functions\<close>

lemma HasPrefix_iff_prefix: "HasPrefix s pre \<longleftrightarrow> prefix pre s"
  unfolding HasPrefix_def prefix_def
  by (metis append_eq_conv_conj append_take_drop_id le_add1 length_append)

lemma HasSuffix_iff_suffix: "HasSuffix s suf \<longleftrightarrow> suffix suf s"
proof
  assume "HasSuffix s suf"
  then have "s = take (length s - length suf) s @ suf"
    unfolding HasSuffix_def by (metis append_take_drop_id)
  then show "suffix suf s" unfolding suffix_def by blast
next
  assume "suffix suf s"
  then obtain zs where "s = zs @ suf" unfolding suffix_def by blast
  then show "HasSuffix s suf" unfolding HasSuffix_def by simp
qed

lemma Contains_iff_sublist: "Contains s sub \<longleftrightarrow> sublist sub s"
  by (induction s) (auto simp: HasPrefix_iff_prefix sublist_Cons_right)

lemma Split_not_Nil: "Split s sep \<noteq> []"
  by (induction s) (auto split: list.splits)

section \<open>The model alias resolver: matching precedence\<close>

text \<open>
  Claim C1. With a non-empty catalog cache, \<^verbatim>\<open>GetFullModelName\<close> returns
  (a) the alias when a cached identifier equals it; otherwise (b) the first
  cached identifier, in the order of the cache, that ends with the alias;
  otherwise (c) the alias itself. In every case it returns a name and no
  error, whatever the upstream would answer, and leaves the cache as it was.
\<close>

theorem GetFullModelName_precedence:
  "modelNames prov \<noteq> [] \<Longrightarrow>
     (alias \<in> set (modelNames prov) \<longrightarrow>
        GetFullModelName alias t lm prov = (Inr alias, prov)) \<and>
     (alias \<notin> set (modelNames prov) \<longrightarrow>
        (\<forall>i < length (modelNames prov).
           suffix alias (modelNames prov ! i) \<and> (\<forall>j < i. \<not> suffix alias (modelNames prov ! j)) \<longrightarrow>
           GetFullModelName alias t lm prov = (Inr (modelNames prov ! i), prov))) \<and>
     (alias \<notin> set (modelNames prov) \<and> (\<forall>n \<in> set (modelNames prov). \<not> suffix alias n) \<longrightarrow>
        GetFullModelName alias t lm prov = (Inr alias, prov)) \<and>
     (\<exists>r. GetFullModelName alias t lm prov = (Inr r, prov))"
proof -
  assume ne: "modelNames prov \<noteq> []"
  let ?names = "modelNames prov"
  have unfold: "GetFullModelName alias t lm prov =
      (case find (\<lambda>fullName. fullName = alias) ?names of
         Some fullName \<Rightarrow> (Inr fullName, prov)
       | None \<Rightarrow> (case find (\<lambda>fullName. HasSuffix fullName alias) ?names of
                    Some fullName \<Rightarrow> (Inr fullName, prov)
                  | None \<Rightarrow> (Inr alias, prov)))"
    using ne by (simp add: GetFullModelName_def)
  have exact: "GetFullModelName alias t lm prov = (Inr alias, prov)" if "alias \<in> set ?names"
  proof -
    from that obtain x where "find (\<lambda>fullName. fullName = alias) ?names = Some x"
      by (cases "find (\<lambda>fullName. fullName = alias) ?names") (auto simp: find_None_iff)
    moreover from this have "x = alias" by (auto simp: find_Some_iff)
    ultimately show ?thesis by (simp add: unfold)
  qed
  have noexact: "find (\<lambda>fullName. fullName = alias) ?names = None" if "alias \<notin> set ?names"
    using that by (auto simp: find_None_iff)
  have suff: "GetFullModelName alias t lm prov = (Inr (?names ! i), prov)"
    if "alias \<notin> set ?names" "i < length ?names" "suffix alias (?names ! i)"
       "\<forall>j < i. \<not> suffix alias (?names ! j)" for i
  proof -
    have "find (\<lambda>fullName. HasSuffix fullName alias) ?names = Some (?names ! i)"
      unfolding find_Some_iff using that by (auto simp: HasSuffix_iff_suffix)
    then show ?thesis using that(1) by (simp add: unfold noexact)
  qed
  have none: "GetFullModelName alias t lm prov = (Inr alias, prov)"
    if "alias \<notin> set ?names" "\<forall>n \<in> set ?names. \<not> suffix alias n"
  proof -
    have "find (\<lambda>fullName. HasSuffix fullName alias) ?names = None"
      using that(2) by (auto simp: find_None_iff HasSuffix_iff_suffix)
    then show ?thesis using that(1) by (simp add: unfold noexact)
  qed
  have total: "\<exists>r. GetFullModelName alias t lm prov = (Inr r, prov)"
    by (simp add: unfold split: option.splits)
  show ?thesis using exact suff none total by blast
qed

text \<open>The three cases at concrete catalogs: an exact match wins over an
  earlier suffix match, the first of two suffix matches wins, and an alias
  that matches nothing is passed through.\<close>

theorem GetFullModelName_precedence_witness:
  "GetFullModelName ''b'' ''t'' (Inl ''down'') \<lparr>modelNames = [''a/b'', ''b'']\<rparr>
     = (Inr ''b'', \<lparr>modelNames = [''a/b'', ''b'']\<rparr>) \<and>
   GetFullModelName ''sonnet-4'' ''t'' (Inl ''down'')
       \<lparr>modelNames = [''openai/gpt-4o'', ''anthropic/claude-sonnet-4'', ''x/sonnet-4'']\<rparr>
     = (Inr ''anthropic/claude-sonnet-4'',
        \<lparr>modelNames = [''openai/gpt-4o'', ''anthropic/claude-sonnet-4'', ''x/sonnet-4'']\<rparr>) \<and>
   GetFullModelName ''llama'' ''t'' (Inl ''down'') \<lparr>modelNames = [''openai/gpt-4o'']\<rparr>
     = (Inr ''llama'', \<lparr>modelNames = [''openai/gpt-4o'']\<rparr>)"
proof -
  have s: "suffix ''sonnet-4'' ''anthropic/claude-sonnet-4''"
    by (simp add: suffix_def)
  have s0: "\<not> suffix ''sonnet-4'' ''openai/gpt-4o''"
    by (simp add: suffix_to_prefix)
  have s1: "\<not> suffix ''llama'' ''openai/gpt-4o''"
    by (simp add: suffix_to_prefix)
  show ?thesis
    using GetFullModelName_precedence [of "\<lparr>modelNames = [''a/b'', ''b'']\<rparr>" "''b''" "''t''" "Inl ''down''"]
      GetFullModelName_precedence [of "\<lparr>modelNames = [''openai/gpt-4o'', ''anthropic/claude-sonnet-4'', ''x/sonnet-4'']\<rparr>" "''sonnet-4''" "''t''" "Inl ''down''", THEN conjunct2, THEN conjunct1, rule_format, of 1]
      GetFullModelName_precedence [of "\<lparr>modelNames = [''openai/gpt-4o'']\<rparr>" "''llama''" "''t''" "Inl ''down''"]
      s s0 s1
    by (simp add: less_Suc_eq)
qed

section \<open>The catalog cache under a refresh\<close>

lemma GetModels_loop_modelNames:
  "modelNames (snd (GetModels_loop t ms (models, prov))) = modelNames prov @ map ID ms"
  by (induction ms arbitrary: models prov) (simp_all add: Let_def)

lemma GetModels_loop_length:
  "length (fst (GetModels_loop t ms (models, prov))) = length models + length ms"
  by (induction ms arbitrary: models prov) (simp_all add: Let_def)

text \<open>
  Claim C8. A catalog fetch that fails returns the error and leaves the
  provider, and so its cache, exactly as it was; a fetch that succeeds
  leaves as cache the identifiers of the fetched models, in their order, and
  nothing of the old cache.
\<close>

theorem GetModels_cache:
  "GetModels t (Inl err) prov = (Inl err, prov) \<and>
   (\<exists>models. GetModels t (Inr ms) prov = (Inr models, prov\<lparr>modelNames := map ID ms\<rparr>)
      \<and> length models = length ms)"
proof -
  obtain models prov' where loop:
    "GetModels_loop t ms ([], prov\<lparr>modelNames := []\<rparr>) = (models, prov')"
    by (cases "GetModels_loop t ms ([], prov\<lparr>modelNames := []\<rparr>)")
  have "modelNames prov' = map ID ms"
    using GetModels_loop_modelNames [of t ms "[]" "prov\<lparr>modelNames := []\<rparr>"] loop by simp
  then have "prov' = prov\<lparr>modelNames := map ID ms\<rparr>" by simp
  moreover have "length models = length ms"
    using GetModels_loop_length [of t ms "[]" "prov\<lparr>modelNames := []\<rparr>"] loop by simp
  ultimately show ?thesis using loop by (simp add: GetModels_def)
qed

text \<open>A failed refresh keeps a cached entry; a successful one drops it.\<close>

theorem GetModels_cache_witness:
  "GetModels ''t'' (Inl ''down'') \<lparr>modelNames = [''openai/gpt-4o'']\<rparr>
     = (Inl ''down'', \<lparr>modelNames = [''openai/gpt-4o'']\<rparr>) \<and>
   snd (GetModels ''t'' (Inr [\<lparr>ID = ''anthropic/claude-sonnet-4''\<rparr>]) \<lparr>modelNames = [''openai/gpt-4o'']\<rparr>)
     = \<lparr>modelNames = [''anthropic/claude-sonnet-4'']\<rparr>"
  using GetModels_cache [of "''t''" "''down''" "\<lparr>modelNames = [''openai/gpt-4o'']\<rparr>"
      "[\<lparr>ID = ''anthropic/claude-sonnet-4''\<rparr>]"]
  by auto

section \<open>Failure of the resolution, and the status the client sees\<close>

lemma GetFullModelName_fails_iff:
  "(\<exists>e. fst (GetFullModelName alias t lm prov) = Inl e) \<longleftrightarrow>
     (modelNames prov = [] \<and> (\<exists>e. lm = Inl e))"
  by (cases lm)
     (auto simp: GetFullModelName_def GetModels_def Let_def split: prod.splits option.splits sum.splits)

lemma GetFullModelName_fails:
  "modelNames prov = [] \<Longrightarrow>
   GetFullModelName alias t (Inl e) prov = (Inl (''failed to get models: '' @ e), prov)"
  by (simp add: GetFullModelName_def GetModels_def)

text \<open>
  Claim C6. \<^verbatim>\<open>GetFullModelName\<close> returns an error exactly when the cache is
  empty and the catalog fetch fails. Both handlers answer that failure with
  status 404 and the error's message. When the resolution succeeds and the
  completion call itself fails (streaming or not), they answer with status 500.
\<close>

theorem resolution_failure_status:
  "((\<exists>err. fst (GetFullModelName alias t lm prov) = Inl err) \<longleftrightarrow>
      (modelNames prov = [] \<and> (\<exists>err. lm = Inl err))) \<and>
   (modelNames prov = [] \<and> ListModels up = Inl e \<longrightarrow>
      api_chat up clock creq prov
        = (JSON StatusNotFound (error_body (''failed to get models: '' @ e)), prov) \<and>
      api_generate up clock greq prov
        = (JSON StatusNotFound (error_body (''failed to get models: '' @ e)), prov)) \<and>
   (GetFullModelName (CustomChatRequest.Model creq) (clock 0) (ListModels up) prov = (Inr full, prov')
      \<and> CustomChatRequest.Stream creq = Some False \<and> Chat up (chat_messages creq) full = Inl e \<longrightarrow>
      api_chat up clock creq prov = (JSON StatusInternalServerError (error_body e), prov')) \<and>
   (GetFullModelName (CustomChatRequest.Model creq) (clock 0) (ListModels up) prov = (Inr full, prov')
      \<and> CustomChatRequest.Stream creq \<noteq> Some False \<and> ChatStream up (chat_messages creq) full = Inl e \<longrightarrow>
      api_chat up clock creq prov = (JSON StatusInternalServerError (error_body e), prov')) \<and>
   (GetFullModelName (Model greq) (clock 0) (ListModels up) prov = (Inr full, prov')
      \<and> GenerateRequest.Stream greq = Some False
      \<and> Generate up (Prompt greq) full (System greq) (Images greq) = Inl e \<longrightarrow>
      api_generate up clock greq prov = (JSON StatusInternalServerError (error_body e), prov')) \<and>
   (GetFullModelName (Model greq) (clock 0) (ListModels up) prov = (Inr full, prov')
      \<and> GenerateRequest.Stream greq \<noteq> Some False
      \<and> GenerateStream up (Prompt greq) full (System greq) (Images greq) = Inl e \<longrightarrow>
      api_generate up clock greq prov = (JSON StatusInternalServerError (error_body e), prov'))"
proof (intro conjI impI)
  show "(\<exists>err. fst (GetFullModelName alias t lm prov) = Inl err) \<longleftrightarrow>
      (modelNames prov = [] \<and> (\<exists>err. lm = Inl err))"
    by (rule GetFullModelName_fails_iff)
next
  assume "modelNames prov = [] \<and> ListModels up = Inl e"
  then show "api_chat up clock creq prov
        = (JSON StatusNotFound (error_body (''failed to get models: '' @ e)), prov)"
    by (simp add: api_chat_def Let_def GetFullModelName_fails)
next
  assume "modelNames prov = [] \<and> ListModels up = Inl e"
  then show "api_generate up clock greq prov
        = (JSON StatusNotFound (error_body (''failed to get models: '' @ e)), prov)"
    by (simp add: api_generate_def Let_def GetFullModelName_fails)
next
  assume "GetFullModelName (CustomChatRequest.Model creq) (clock 0) (ListModels up) prov = (Inr full, prov')
      \<and> CustomChatRequest.Stream creq = Some False \<and> Chat up (chat_messages creq) full = Inl e"
  then show "api_chat up clock creq prov = (JSON StatusInternalServerError (error_body e), prov')"
    by (simp add: api_chat_def Let_def)
next
  assume "GetFullModelName (CustomChatRequest.Model creq) (clock 0) (ListModels up) prov = (Inr full, prov')
      \<and> CustomChatRequest.Stream creq \<noteq> Some False \<and> ChatStream up (chat_messages creq) full = Inl e"
  then show "api_chat up clock creq prov = (JSON StatusInternalServerError (error_body e), prov')"
    by (cases "CustomChatRequest.Stream creq") (auto simp add: api_chat_def Let_def)
next
  assume "GetFullModelName (Model greq) (clock 0) (ListModels up) prov = (Inr full, prov')
      \<and> GenerateRequest.Stream greq = Some False
      \<and> Generate up (Prompt greq) full (System greq) (Images greq) = Inl e"
  then show "api_generate up clock greq prov = (JSON StatusInternalServerError (error_body e), prov')"
    by (simp add: api_generate_def Let_def)
next
  assume "GetFullModelName (Model greq) (clock 0) (ListModels up) prov = (Inr full, prov')
      \<and> GenerateRequest.Stream greq \<noteq> Some False
      \<and> GenerateStream up (Prompt greq) full (System greq) (Images greq) = Inl e"
  then show "api_generate up clock greq prov = (JSON StatusInternalServerError (error_body e), prov')"
    by (cases "GenerateRequest.Stream greq") (auto simp add: api_generate_def Let_def)
qed

text \<open>With the upstream down: both handlers answer 404 on an empty cache, and
  500 once a cache exists, streaming or not.\<close>

theorem resolution_failure_status_witness:
  "api_chat \<lparr>ListModels = Inl ''down'', CreateChatCompletion = (\<lambda>m ms. Inl ''boom''),
             CreateChatCompletionStream = (\<lambda>m ms. Inl ''boom'')\<rparr> (\<lambda>k. ''t'')
     \<lparr>CustomChatRequest.Model = ''gpt-x'', Messages = [], Stream = None, Images = []\<rparr>
     \<lparr>modelNames = []\<rparr>
     = (JSON 404 (JObject [(''error'', JString ''failed to get models: down'')]), \<lparr>modelNames = []\<rparr>) \<and>
   api_generate \<lparr>ListModels = Inl ''down'', CreateChatCompletion = (\<lambda>m ms. Inl ''boom''),
             CreateChatCompletionStream = (\<lambda>m ms. Inl ''boom'')\<rparr> (\<lambda>k. ''t'')
     \<lparr>GenerateRequest.Model = ''gpt-x'', Prompt = ''hi'', System = '''', Stream = None, Images = []\<rparr>
     \<lparr>modelNames = []\<rparr>
     = (JSON 404 (JObject [(''error'', JString ''failed to get models: down'')]), \<lparr>modelNames = []\<rparr>) \<and>
   api_chat \<lparr>ListModels = Inl ''down'', CreateChatCompletion = (\<lambda>m ms. Inl ''boom''),
             CreateChatCompletionStream = (\<lambda>m ms. Inl ''boom'')\<rparr> (\<lambda>k. ''t'')
     \<lparr>CustomChatRequest.Model = ''gpt-x'', Messages = [], Stream = None, Images = []\<rparr>
     \<lparr>modelNames = [''openai/gpt-x'']\<rparr>
     = (JSON 500 (JObject [(''error'', JString ''boom'')]), \<lparr>modelNames = [''openai/gpt-x'']\<rparr>) \<and>
   api_chat \<lparr>ListModels = Inl ''down'', CreateChatCompletion = (\<lambda>m ms. Inl ''boom''),
             CreateChatCompletionStream = (\<lambda>m ms. Inl ''boom'')\<rparr> (\<lambda>k. ''t'')
     \<lparr>CustomChatRequest.Model = ''gpt-x'', Messages = [], Stream = Some False, Images = []\<rparr>
     \<lparr>modelNames = [''openai/gpt-x'']\<rparr>
     = (JSON 500 (JObject [(''error'', JString ''boom'')]), \<lparr>modelNames = [''openai/gpt-x'']\<rparr>) \<and>
   api_generate \<lparr>ListModels = Inl ''down'', CreateChatCompletion = (\<lambda>m ms. Inl ''boom''),
             CreateChatCompletionStream = (\<lambda>m ms. Inl ''boom'')\<rparr> (\<lambda>k. ''t'')
     \<lparr>GenerateRequest.Model = ''gpt-x'', Prompt = ''hi'', System = '''', Stream = None, Images = []\<rparr>
     \<lparr>modelNames = [''openai/gpt-x'']\<rparr>
     = (JSON 500 (JObject [(''error'', JString ''boom'')]), \<lparr>modelNames = [''openai/gpt-x'']\<rparr>) \<and>
   api_generate \<lparr>ListModels = Inl ''down'', CreateChatCompletion = (\<lambda>m ms. Inl ''boom''),
             CreateChatCompletionStream = (\<lambda>m ms. Inl ''boom'')\<rparr> (\<lambda>k. ''t'')
     \<lparr>GenerateRequest.Model = ''gpt-x'', Prompt = ''hi'', System = '''', Stream = Some False, Images = []\<rparr>
     \<lparr>modelNames = [''openai/gpt-x'']\<rparr>
     = (JSON 500 (JObject [(''error'', JString ''boom'')]), \<lparr>modelNames = [''openai/gpt-x'']\<rparr>) \<and>
   (\<exists>err. fst (GetFullModelName ''gpt-x'' ''t'' (Inl ''down'') \<lparr>modelNames = []\<rparr>) = Inl err)"
proof -
  let ?up = "\<lparr>ListModels = Inl ''down'', CreateChatCompletion = (\<lambda>m ms. Inl ''boom''),
             CreateChatCompletionStream = (\<lambda>m ms. Inl ''boom'')\<rparr>"
  let ?c = "\<lambda>stream. \<lparr>CustomChatRequest.Model = ''gpt-x'', Messages = [], Stream = stream, Images = []\<rparr>"
  let ?g = "\<lambda>stream. \<lparr>GenerateRequest.Model = ''gpt-x'', Prompt = ''hi'', System = '''',
             Stream = stream, Images = []\<rparr>"
  let ?empty = "\<lparr>modelNames = []\<rparr>"
  let ?cached = "\<lparr>modelNames = [''openai/gpt-x'']\<rparr>"
  have res: "GetFullModelName ''gpt-x'' ''t'' (Inl ''down'') ?cached = (Inr ''openai/gpt-x'', ?cached)"
    by (simp add: GetFullModelName_def HasSuffix_def)
  note w = resolution_failure_status [where up = ?up and clock = "\<lambda>k. ''t''"]
  show ?thesis
    using w [where prov = ?empty and e = "''down''" and creq = "?c None" and greq = "?g None"]
      w [where prov = ?cached and e = "''boom''" and full = "''openai/gpt-x''" and prov' = ?cached
          and creq = "?c None" and greq = "?g None"]
      w [where prov = ?cached and e = "''boom''" and full = "''openai/gpt-x''" and prov' = ?cached
          and creq = "?c (Some False)" and greq = "?g (Some False)"]
      resolution_failure_status [of "''gpt-x''" "''t''" "Inl ''down''" ?empty]
      res
    by (simp add: Chat_def ChatStream_def Generate_def GenerateStream_def
          StatusNotFound_def StatusInternalServerError_def error_body_def)
qed

section \<open>Facts about \<^verbatim>\<open>TrimSpace\<close>\<close>

lemma space_runes_bytes:
  "q \<in> set space_runes \<Longrightarrow> q \<noteq> [] \<and> CHR ''d'' \<notin> set q \<and> CHR '','' \<notin> set q"
  by (auto simp: space_runes_def)

lemma leading_space_0_iff:
  "leading_space s = 0 \<longleftrightarrow> (\<forall>q \<in> set space_runes. \<not> prefix q s)"
proof (cases "find (\<lambda>q. HasPrefix s q) space_runes")
  case None
  then have "\<forall>q \<in> set space_runes. \<not> prefix q s"
    by (auto simp: find_None_iff HasPrefix_iff_prefix)
  moreover have "leading_space s = 0"
    using None by (simp add: leading_space_def)
  ultimately show ?thesis by simp
next
  case (Some q)
  then have "q \<in> set space_runes" "prefix q s"
    by (auto simp: find_Some_iff HasPrefix_iff_prefix)
  with Some show ?thesis
    using space_runes_bytes [of q] by (auto simp: leading_space_def)
qed

lemma trailing_space_0_iff:
  "trailing_space s = 0 \<longleftrightarrow> (\<forall>q \<in> set space_runes. \<not> suffix q s)"
proof (cases "find (\<lambda>q. HasSuffix s q) space_runes")
  case None
  then have "\<forall>q \<in> set space_runes. \<not> suffix q s"
    by (auto simp: find_None_iff HasSuffix_iff_suffix)
  moreover have "trailing_space s = 0"
    using None by (simp add: trailing_space_def)
  ultimately show ?thesis by simp
next
  case (Some q)
  then have "q \<in> set space_runes" "suffix q s"
    by (auto simp: find_Some_iff HasSuffix_iff_suffix)
  with Some show ?thesis
    using space_runes_bytes [of q] by (auto simp: trailing_space_def)
qed

lemma TrimLeft_id: "leading_space s = 0 \<Longrightarrow> TrimLeft s = s"
  by simp

lemma TrimRight_id: "trailing_space s = 0 \<Longrightarrow> TrimRight s = s"
  by simp

lemma leading_space_TrimLeft: "leading_space (TrimLeft s) = 0"
  by (induction s rule: TrimLeft.induct) (metis TrimLeft.simps)

lemma trailing_space_TrimRight: "trailing_space (TrimRight s) = 0"
  by (induction s rule: TrimRight.induct) (metis TrimRight.simps)

lemma TrimRight_prefix: "prefix (TrimRight s) s"
proof (induction s rule: TrimRight.induct)
  case (1 s)
  show ?case
  proof (cases "trailing_space s = 0")
    case True
    then show ?thesis by simp
  next
    case False
    then have "prefix (TrimRight (take (length s - trailing_space s) s))
                 (take (length s - trailing_space s) s)"
      using "1" by simp
    moreover have "TrimRight s = TrimRight (take (length s - trailing_space s) s)"
      using False by (subst TrimRight.simps) simp
    ultimately show ?thesis
      by (metis prefix_order.trans take_is_prefix)
  qed
qed

lemma leading_space_TrimSpace: "leading_space (TrimSpace s) = 0"
proof -
  have "prefix (TrimSpace s) (TrimLeft s)"
    unfolding TrimSpace_def by (rule TrimRight_prefix)
  then show ?thesis
    using leading_space_TrimLeft [of s]
    unfolding leading_space_0_iff by (meson prefix_order.trans)
qed

lemma trailing_space_TrimSpace: "trailing_space (TrimSpace s) = 0"
  unfolding TrimSpace_def by (rule trailing_space_TrimRight)

lemma TrimSpace_id: "leading_space s = 0 \<Longrightarrow> trailing_space s = 0 \<Longrightarrow> TrimSpace s = s"
  by (simp add: TrimSpace_def)

lemma TrimSpace_idem: "TrimSpace (TrimSpace s) = TrimSpace s"
  by (rule TrimSpace_id) (rule leading_space_TrimSpace trailing_space_TrimSpace)+

text \<open>White space is not trimmed across a comma: behind a text that ends
  with a comma, the trailing white space is that of the rest.\<close>

lemma suffix_behind_comma:
  assumes "p \<noteq> []" "last p = CHR '',''" "q \<in> set space_runes"
  shows "suffix q (p @ t) \<longleftrightarrow> suffix q t"
proof
  assume "suffix q (p @ t)"
  then consider "suffix q t" | q' where "suffix q' p" "q = q' @ t"
    by (auto simp: suffix_append)
  then show "suffix q t"
  proof cases
    case 1
    then show ?thesis .
  next
    case 2
    show ?thesis
    proof (cases "q' = []")
      case True
      with 2 show ?thesis by simp
    next
      case False
      with 2(1) have "last q' = last p"
        by (auto simp: suffix_def)
      with False assms(2) have "CHR '','' \<in> set q'"
        by (metis last_in_set)
      with 2(2) assms(3) show ?thesis
        using space_runes_bytes [of q] by auto
    qed
  qed
next
  assume "suffix q t"
  then show "suffix q (p @ t)" by (rule suffix_appendI)
qed

lemma trailing_space_behind_comma:
  assumes "p \<noteq> []" "last p = CHR '',''"
  shows "trailing_space (p @ t) = trailing_space t"
proof -
  have "find (\<lambda>q. HasSuffix (p @ t) q) space_runes = find (\<lambda>q. HasSuffix t q) space_runes"
    by (rule find_cong) (simp_all add: HasSuffix_iff_suffix suffix_behind_comma [OF assms])
  then show ?thesis by (simp add: trailing_space_def)
qed

lemma TrimRight_behind_comma:
  assumes "p \<noteq> []" "last p = CHR '',''"
  shows "TrimRight (p @ t) = p @ TrimRight t"
proof (induction t rule: TrimRight.induct)
  case (1 t)
  show ?case
  proof (cases "trailing_space t = 0")
    case True
    then show ?thesis
      using trailing_space_behind_comma [OF assms, of t] by simp
  next
    case False
    let ?t' = "take (length t - trailing_space t) t"
    have "TrimRight (p @ t) = TrimRight (take (length (p @ t) - trailing_space (p @ t)) (p @ t))"
      using False trailing_space_behind_comma [OF assms, of t] by (subst TrimRight.simps) simp
    also have "take (length (p @ t) - trailing_space (p @ t)) (p @ t) = p @ ?t'"
      using trailing_space_le [of t] trailing_space_behind_comma [OF assms, of t] by simp
    also have "TrimRight (p @ ?t') = p @ TrimRight ?t'"
      using "1" False by simp
    also have "TrimRight ?t' = TrimRight t"
      using False by (subst (2) TrimRight.simps) simp
    finally show ?thesis .
  qed
qed

lemma leading_space_d: "leading_space (CHR ''d'' # s) = 0"
  unfolding leading_space_0_iff
proof
  fix q assume "q \<in> set space_runes"
  then have "q \<noteq> []" "CHR ''d'' \<notin> set q" using space_runes_bytes by auto
  then show "\<not> prefix q (CHR ''d'' # s)" by (cases q) auto
qed

lemma TrimSpace_data:
  assumes "last (CHR ''d'' # p) = CHR '',''"
  shows "TrimSpace (CHR ''d'' # p @ t) = CHR ''d'' # p @ TrimRight t"
proof -
  have "TrimLeft (CHR ''d'' # p @ t) = CHR ''d'' # p @ t"
    using leading_space_d by simp
  moreover have "TrimRight ((CHR ''d'' # p) @ t) = (CHR ''d'' # p) @ TrimRight t"
    using assms by (intro TrimRight_behind_comma) simp_all
  ultimately show ?thesis by (simp add: TrimSpace_def)
qed

section \<open>The image signature detector\<close>

lemma prefix_Cons_hd: "prefix (c # p) t \<Longrightarrow> t \<noteq> [] \<and> hd t = c"
  by (cases t) auto

lemma formatImageForAPI_unfold:
  "x \<noteq> [] \<Longrightarrow> TrimSpace x = t \<Longrightarrow>
   formatImageForAPI x =
     (if prefix ''data:image/'' t \<and> sublist '';base64,'' t then t
      else if prefix ''/9j/'' t then ''data:image/jpeg;base64,'' @ t
      else if prefix ''iVBOR'' t then ''data:image/png;base64,'' @ t
      else if prefix ''R0lGOD'' t then ''data:image/gif;base64,'' @ t
      else if prefix ''UklGR'' t then ''data:image/webp;base64,'' @ t
      else ''data:image/jpeg;base64,'' @ t)"
  by (simp only: formatImageForAPI_def Let_def HasPrefix_iff_prefix Contains_iff_sublist
        length_0_conv if_False)

text \<open>An input that starts with \<^verbatim>\<open>data:image/\<close> and goes on to hold \<^verbatim>\<open>;base64,\<close>
  comes back without its trailing white space.\<close>

lemma formatImageForAPI_data:
  assumes a: "prefix ''data:image/'' a"
  shows "formatImageForAPI (a @ '';base64,'' @ rest) = a @ '';base64,'' @ TrimRight rest"
proof -
  let ?x = "a @ '';base64,'' @ rest"
  let ?t = "a @ '';base64,'' @ TrimRight rest"
  from a obtain a' where a': "a = CHR ''d'' # a'"
    by (auto simp: prefix_def)
  have "TrimSpace (CHR ''d'' # (a' @ '';base64,'') @ rest)
          = CHR ''d'' # (a' @ '';base64,'') @ TrimRight rest"
    by (rule TrimSpace_data) simp
  then have trim: "TrimSpace ?x = ?t"
    by (simp add: a')
  have ne: "?x \<noteq> []" by simp
  have p: "prefix ''data:image/'' ?t"
    using a by (rule prefix_prefix)
  have s: "sublist '';base64,'' ?t"
    by (rule sublist_appendI)
  show ?thesis
    unfolding formatImageForAPI_unfold [OF ne trim] using p s by (simp only: simp_thms if_True)
qed

lemma formatImageForAPI_data_fixed:
  assumes "prefix ''data:image/'' a" "trailing_space rest = 0"
  shows "formatImageForAPI (a @ '';base64,'' @ rest) = a @ '';base64,'' @ rest"
  using formatImageForAPI_data [OF assms(1), of rest] assms(2) by simp

text \<open>
  Claim C5, as amended. For a non-empty input, let \<open>t\<close> be the input without its
  leading and trailing white space. When \<open>t\<close> has no data-URL prefix, the
  result is \<^verbatim>\<open>data:image/<type>;base64,\<close> followed by \<open>t\<close>, where the type is
  read from the leading characters of \<open>t\<close>: \<^verbatim>\<open>/9j/\<close> gives jpeg, \<^verbatim>\<open>iVBOR\<close>
  png, \<^verbatim>\<open>R0lGOD\<close> gif, \<^verbatim>\<open>UklGR\<close> webp, and anything else jpeg. (No two of
  the signatures start alike, so the order of the checks decides nothing.)
  An input with no white space at either end is its own \<open>t\<close>.
\<close>

theorem formatImageForAPI_signature:
  "x \<noteq> [] \<and> \<not> (prefix ''data:image/'' (TrimSpace x) \<and> sublist '';base64,'' (TrimSpace x)) \<longrightarrow>
     (prefix ''/9j/'' (TrimSpace x) \<longrightarrow>
        formatImageForAPI x = ''data:image/jpeg;base64,'' @ TrimSpace x) \<and>
     (prefix ''iVBOR'' (TrimSpace x) \<longrightarrow>
        formatImageForAPI x = ''data:image/png;base64,'' @ TrimSpace x) \<and>
     (prefix ''R0lGOD'' (TrimSpace x) \<longrightarrow>
        formatImageForAPI x = ''data:image/gif;base64,'' @ TrimSpace x) \<and>
     (prefix ''UklGR'' (TrimSpace x) \<longrightarrow>
        formatImageForAPI x = ''data:image/webp;base64,'' @ TrimSpace x) \<and>
     (\<not> prefix ''/9j/'' (TrimSpace x) \<and> \<not> prefix ''iVBOR'' (TrimSpace x) \<and>
      \<not> prefix ''R0lGOD'' (TrimSpace x) \<and> \<not> prefix ''UklGR'' (TrimSpace x) \<longrightarrow>
        formatImageForAPI x = ''data:image/jpeg;base64,'' @ TrimSpace x) \<and>
     (leading_space x = 0 \<and> trailing_space x = 0 \<longrightarrow> TrimSpace x = x)"
proof
  assume h: "x \<noteq> [] \<and> \<not> (prefix ''data:image/'' (TrimSpace x) \<and> sublist '';base64,'' (TrimSpace x))"
  define t where "t = TrimSpace x"
  have u: "formatImageForAPI x =
     (if prefix ''/9j/'' t then ''data:image/jpeg;base64,'' @ t
      else if prefix ''iVBOR'' t then ''data:image/png;base64,'' @ t
      else if prefix ''R0lGOD'' t then ''data:image/gif;base64,'' @ t
      else if prefix ''UklGR'' t then ''data:image/webp;base64,'' @ t
      else ''data:image/jpeg;base64,'' @ t)"
    using h formatImageForAPI_unfold [of x t] by (auto simp: t_def)
  have jpeg: "formatImageForAPI x = ''data:image/jpeg;base64,'' @ t" if "prefix ''/9j/'' t"
    using that by (simp add: u)
  have png: "formatImageForAPI x = ''data:image/png;base64,'' @ t" if "prefix ''iVBOR'' t"
    using that prefix_Cons_hd [of "CHR ''/''" "''9j/''" t] prefix_Cons_hd [of "CHR ''i''" "''VBOR''" t]
    by (auto simp: u)
  have gif: "formatImageForAPI x = ''data:image/gif;base64,'' @ t" if "prefix ''R0lGOD'' t"
    using that prefix_Cons_hd [of "CHR ''/''" "''9j/''" t] prefix_Cons_hd [of "CHR ''i''" "''VBOR''" t]
      prefix_Cons_hd [of "CHR ''R''" "''0lGOD''" t]
    by (auto simp: u)
  have webp: "formatImageForAPI x = ''data:image/webp;base64,'' @ t" if "prefix ''UklGR'' t"
    using that prefix_Cons_hd [of "CHR ''/''" "''9j/''" t] prefix_Cons_hd [of "CHR ''i''" "''VBOR''" t]
      prefix_Cons_hd [of "CHR ''R''" "''0lGOD''" t] prefix_Cons_hd [of "CHR ''U''" "''klGR''" t]
    by (auto simp: u)
  have other: "formatImageForAPI x = ''data:image/jpeg;base64,'' @ t"
    if "\<not> prefix ''/9j/'' t \<and> \<not> prefix ''iVBOR'' t \<and> \<not> prefix ''R0lGOD'' t \<and> \<not> prefix ''UklGR'' t"
    using that by (simp add: u)
  have same: "TrimSpace x = x" if "leading_space x = 0 \<and> trailing_space x = 0"
    using that by (simp add: TrimSpace_id)
  show "(prefix ''/9j/'' (TrimSpace x) \<longrightarrow>
        formatImageForAPI x = ''data:image/jpeg;base64,'' @ TrimSpace x) \<and>
     (prefix ''iVBOR'' (TrimSpace x) \<longrightarrow>
        formatImageForAPI x = ''data:image/png;base64,'' @ TrimSpace x) \<and>
     (prefix ''R0lGOD'' (TrimSpace x) \<longrightarrow>
        formatImageForAPI x = ''data:image/gif;base64,'' @ TrimSpace x) \<and>
     (prefix ''UklGR'' (TrimSpace x) \<longrightarrow>
        formatImageForAPI x = ''data:image/webp;base64,'' @ TrimSpace x) \<and>
     (\<not> prefix ''/9j/'' (TrimSpace x) \<and> \<not> prefix ''iVBOR'' (TrimSpace x) \<and>
      \<not> prefix ''R0lGOD'' (TrimSpace x) \<and> \<not> prefix ''UklGR'' (TrimSpace x) \<longrightarrow>
        formatImageForAPI x = ''data:image/jpeg;base64,'' @ TrimSpace x) \<and>
     (leading_space x = 0 \<and> trailing_space x = 0 \<longrightarrow> TrimSpace x = x)"
    using jpeg png gif webp other same unfolding t_def by blast
qed

text \<open>One input for each signature, one of them with white space around it,
  and one without a signature.\<close>

theorem formatImageForAPI_signature_witness:
  "formatImageForAPI ''/9j/4AAQSkZJRg=='' = ''data:image/jpeg;base64,/9j/4AAQSkZJRg=='' \<and>
   formatImageForAPI ''iVBORw0KGgo='' = ''data:image/png;base64,iVBORw0KGgo='' \<and>
   formatImageForAPI ''R0lGODlhAQABAAAAACw='' = ''data:image/gif;base64,R0lGODlhAQABAAAAACw='' \<and>
   formatImageForAPI ('' UklGRh4='' @ [CHR 0x0D, CHR 0x0A]) = ''data:image/webp;base64,UklGRh4='' \<and>
   formatImageForAPI ''AAAA'' = ''data:image/jpeg;base64,AAAA''"
proof -
  have t0: "TrimSpace ''/9j/4AAQSkZJRg=='' = ''/9j/4AAQSkZJRg==''" by code_simp
  have t1: "TrimSpace ''iVBORw0KGgo='' = ''iVBORw0KGgo=''" by code_simp
  have t2: "TrimSpace ''R0lGODlhAQABAAAAACw='' = ''R0lGODlhAQABAAAAACw=''" by code_simp
  have t3: "TrimSpace ('' UklGRh4='' @ [CHR 0x0D, CHR 0x0A]) = ''UklGRh4=''" by code_simp
  have t4: "TrimSpace ''AAAA'' = ''AAAA''" by code_simp
  show ?thesis
    using formatImageForAPI_signature [of "''/9j/4AAQSkZJRg==''"]
      formatImageForAPI_signature [of "''iVBORw0KGgo=''"]
      formatImageForAPI_signature [of "''R0lGODlhAQABAAAAACw=''"]
      formatImageForAPI_signature [of "'' UklGRh4='' @ [CHR 0x0D, CHR 0x0A]"]
      formatImageForAPI_signature [of "''AAAA''"]
    unfolding t0 t1 t2 t3 t4 by simp
qed

text \<open>
  Claim C5 as the specification states it fails: a PNG payload that ends with
  a line feed comes back without the line feed, so the result is not the
  prefix followed by the input.
\<close>

theorem formatImageForAPI_signature_counterexample:
  "formatImageForAPI (''iVBORw0KGgo='' @ [CHR 0x0A]) = ''data:image/png;base64,iVBORw0KGgo='' \<and>
   (\<forall>p. formatImageForAPI (''iVBORw0KGgo='' @ [CHR 0x0A]) \<noteq> p @ ''iVBORw0KGgo='' @ [CHR 0x0A])"
proof -
  have e: "formatImageForAPI (''iVBORw0KGgo='' @ [CHR 0x0A]) = ''data:image/png;base64,iVBORw0KGgo=''"
    by code_simp
  have "''data:image/png;base64,iVBORw0KGgo='' \<noteq> p @ ''iVBORw0KGgo='' @ [CHR 0x0A]" for p
  proof
    assume "''data:image/png;base64,iVBORw0KGgo='' = p @ ''iVBORw0KGgo='' @ [CHR 0x0A]"
    then have "last ''data:image/png;base64,iVBORw0KGgo='' = last (p @ ''iVBORw0KGgo='' @ [CHR 0x0A])"
      by (rule arg_cong)
    then show False by simp
  qed
  with e show ?thesis by simp
qed

lemma prefix_before:
  assumes "prefix p (a @ s)" "s \<noteq> []" "hd s \<notin> set p"
  shows "prefix p a"
proof -
  from assms(1) consider "prefix p a" | us where "p = a @ us" "prefix us s"
    by (auto simp: prefix_append)
  then show ?thesis
  proof cases
    case 1
    then show ?thesis .
  next
    case 2
    show ?thesis
    proof (cases us)
      case Nil
      with 2 show ?thesis by simp
    next
      case (Cons u us')
      with 2(2) assms(2) have "hd s = u" by (cases s) auto
      with 2(1) Cons assms(3) show ?thesis by simp
    qed
  qed
qed

lemma formatImageForAPI_fixed_point:
  assumes p: "prefix ''data:image/'' t" and s: "sublist '';base64,'' t"
    and tr: "trailing_space t = 0"
  shows "formatImageForAPI t = t"
proof -
  from s obtain a b where t: "t = a @ '';base64,'' @ b"
    by (auto simp: sublist_def)
  have "prefix ''data:image/'' a"
    using p unfolding t by (rule prefix_before) simp_all
  moreover have "trailing_space b = 0"
    using tr trailing_space_behind_comma [of "a @ '';base64,''" b] by (simp add: t)
  ultimately show ?thesis
    unfolding t by (rule formatImageForAPI_data_fixed)
qed

lemma formatImageForAPI_idem: "formatImageForAPI (formatImageForAPI x) = formatImageForAPI x"
proof (cases "x = []")
  case True
  then show ?thesis by (simp add: formatImageForAPI_def)
next
  case False
  define t where "t = TrimSpace x"
  have tr: "trailing_space t = 0"
    unfolding t_def by (rule trailing_space_TrimSpace)
  note u = formatImageForAPI_unfold [OF False t_def [symmetric]]
  show ?thesis
  proof (cases "prefix ''data:image/'' t \<and> sublist '';base64,'' t")
    case True
    then have "formatImageForAPI x = t" by (simp add: u)
    moreover have "formatImageForAPI t = t"
      using True tr by (intro formatImageForAPI_fixed_point) simp_all
    ultimately show ?thesis by simp
  next
    case no: False
    have fixed: "formatImageForAPI (a @ '';base64,'' @ t) = a @ '';base64,'' @ t"
      if "prefix ''data:image/'' a" for a
      using that tr by (rule formatImageForAPI_data_fixed)
    have j: "formatImageForAPI (''data:image/jpeg;base64,'' @ t) = ''data:image/jpeg;base64,'' @ t"
      using fixed [of "''data:image/jpeg''"] by simp
    have p: "formatImageForAPI (''data:image/png;base64,'' @ t) = ''data:image/png;base64,'' @ t"
      using fixed [of "''data:image/png''"] by simp
    have g: "formatImageForAPI (''data:image/gif;base64,'' @ t) = ''data:image/gif;base64,'' @ t"
      using fixed [of "''data:image/gif''"] by simp
    have w: "formatImageForAPI (''data:image/webp;base64,'' @ t) = ''data:image/webp;base64,'' @ t"
      using fixed [of "''data:image/webp''"] by simp
    from no have "formatImageForAPI x = ''data:image/jpeg;base64,'' @ t
        \<or> formatImageForAPI x = ''data:image/png;base64,'' @ t
        \<or> formatImageForAPI x = ''data:image/gif;base64,'' @ t
        \<or> formatImageForAPI x = ''data:image/webp;base64,'' @ t"
      by (simp add: u)
    then show ?thesis using j p g w by (elim disjE) (simp_all only:)
  qed
qed

text \<open>
  Claim C9, as amended. Applying the detector twice gives what applying it
  once gives, for every input. An input that begins with a
  \<^verbatim>\<open>data:image/...;base64,\<close> prefix comes back without its trailing white
  space, and so unchanged when it has none.
\<close>

theorem formatImageForAPI_idempotent:
  "formatImageForAPI (formatImageForAPI x) = formatImageForAPI x \<and>
   formatImageForAPI (''data:image/'' @ mid @ '';base64,'' @ rest)
     = ''data:image/'' @ mid @ '';base64,'' @ TrimRight rest \<and>
   (trailing_space rest = 0 \<longrightarrow>
      formatImageForAPI (''data:image/'' @ mid @ '';base64,'' @ rest)
        = ''data:image/'' @ mid @ '';base64,'' @ rest)"
proof -
  have "formatImageForAPI ((''data:image/'' @ mid) @ '';base64,'' @ rest)
     = (''data:image/'' @ mid) @ '';base64,'' @ TrimRight rest"
    by (rule formatImageForAPI_data) simp
  then have d: "formatImageForAPI (''data:image/'' @ mid @ '';base64,'' @ rest)
     = ''data:image/'' @ mid @ '';base64,'' @ TrimRight rest"
    by simp
  then have "trailing_space rest = 0 \<longrightarrow>
      formatImageForAPI (''data:image/'' @ mid @ '';base64,'' @ rest)
        = ''data:image/'' @ mid @ '';base64,'' @ rest"
    by simp
  with d show ?thesis using formatImageForAPI_idem [of x] by blast
qed

theorem formatImageForAPI_idempotent_witness:
  "formatImageForAPI (formatImageForAPI ('' R0lGODlh'' @ [CHR 0x0A]))
     = formatImageForAPI ('' R0lGODlh'' @ [CHR 0x0A]) \<and>
   formatImageForAPI ''data:image/png;base64,iVBORw0KGgo='' = ''data:image/png;base64,iVBORw0KGgo=''"
proof -
  have "trailing_space ''iVBORw0KGgo='' = 0" by code_simp
  then show ?thesis
    using formatImageForAPI_idempotent [of "'' R0lGODlh'' @ [CHR 0x0A]" "''png''" "''iVBORw0KGgo=''"]
    by simp
qed

text \<open>
  Claim C9 as the specification states it fails: an input that begins with a
  data-URL prefix and ends with a line feed does not come back unchanged.
\<close>

theorem formatImageForAPI_idempotent_counterexample:
  "formatImageForAPI (''data:image/png;base64,AAAA'' @ [CHR 0x0A]) = ''data:image/png;base64,AAAA'' \<and>
   formatImageForAPI (''data:image/png;base64,AAAA'' @ [CHR 0x0A])
     \<noteq> ''data:image/png;base64,AAAA'' @ [CHR 0x0A]"
proof -
  have "formatImageForAPI (''data:image/png;base64,AAAA'' @ [CHR 0x0A]) = ''data:image/png;base64,AAAA''"
    by code_simp
  then show ?thesis by simp
qed

section \<open>The message normalizer\<close>

lemma message_images_loop_eq:
  "message_images_loop imgs contentItems =
     contentItems @ map (\<lambda>img. ImageURLPart (formatImageForAPI img)) (filter (\<lambda>img. img \<noteq> '''') imgs)"
  by (induction imgs arbitrary: contentItems) simp_all

lemma generate_images_loop_eq:
  "generate_images_loop imgs contentItems =
     contentItems @ map (\<lambda>img. ImageURLPart (formatImageForAPI img)) (filter (\<lambda>img. img \<noteq> '''') imgs)"
  by (induction imgs arbitrary: contentItems) simp_all

lemma top_level_images_loop_eq:
  "top_level_images_loop imgs contentItems =
     contentItems @ map (\<lambda>img. ImageURLPart (formatImageForAPI img)) imgs"
  by (induction imgs arbitrary: contentItems) simp_all

lemma process_messages_map:
  "process_messages cs (map stdMsg cs) = map (\<lambda>c. process_message c (stdMsg c)) cs"
  by (induction cs) simp_all

lemma process_message_Role:
  "Role (process_message c (stdMsg c)) = MessageWithImages.Role c"
  by (simp add: process_message_def stdMsg_def Let_def)

lemma process_message_not_user:
  "MessageWithImages.Role c \<noteq> ChatMessageRoleUser \<Longrightarrow> process_message c (stdMsg c) = stdMsg c"
  by (simp add: process_message_def)

lemma lastUserMsgIndex_from_Some:
  "lastUserMsgIndex_from msgs n = Some i \<longleftrightarrow>
     i < n \<and> Role (msgs ! i) = ChatMessageRoleUser \<and>
     (\<forall>j. i < j \<and> j < n \<longrightarrow> Role (msgs ! j) \<noteq> ChatMessageRoleUser)"
proof (induction n)
  case 0
  then show ?case by simp
next
  case (Suc n)
  show ?case
  proof (cases "Role (msgs ! n) = ChatMessageRoleUser")
    case True
    then show ?thesis
      by (auto simp: less_Suc_eq)
  next
    case False
    then show ?thesis
      using Suc by (auto simp: less_Suc_eq)
  qed
qed

lemma lastUserMsgIndex_from_None:
  "lastUserMsgIndex_from msgs n = None \<longleftrightarrow> (\<forall>j < n. Role (msgs ! j) \<noteq> ChatMessageRoleUser)"
  by (induction n) (auto simp: less_Suc_eq)

text \<open>The content parts of a message after the loop over the messages,
  as the top-level step finds them or makes them.\<close>

lemma process_message_items:
  "MessageWithImages.Role c = ChatMessageRoleUser \<Longrightarrow>
   (if length (MultiContent (process_message c (stdMsg c))) > 0
    then MultiContent (process_message c (stdMsg c))
    else [TextPart (Content (process_message c (stdMsg c)))])
   = TextPart (MessageWithImages.Content c)
       # map (\<lambda>img. ImageURLPart (formatImageForAPI img))
           (filter (\<lambda>img. img \<noteq> '''') (MessageWithImages.Images c))"
  by (simp add: process_message_def stdMsg_def Let_def message_images_loop_eq)

lemma chat_messages_length: "length (chat_messages req) = length (Messages req)"
  by (simp add: chat_messages_def process_top_level_images_def process_messages_map Let_def
        split: option.splits)

lemma chat_messages_no_user:
  assumes "\<forall>m \<in> set (Messages req). MessageWithImages.Role m \<noteq> ChatMessageRoleUser"
  shows "chat_messages req = map stdMsg (Messages req)"
proof -
  let ?ms = "map (\<lambda>c. process_message c (stdMsg c)) (Messages req)"
  have ms: "?ms = map stdMsg (Messages req)"
    using assms by (simp add: process_message_not_user)
  have "\<forall>j < length ?ms. Role (?ms ! j) \<noteq> ChatMessageRoleUser"
    using assms by (simp add: process_message_Role)
  then have "lastUserMsgIndex_from ?ms (length ?ms) = None"
    by (simp only: lastUserMsgIndex_from_None)
  then have "process_top_level_images (CustomChatRequest.Images req) ?ms = ?ms"
    by (simp add: process_top_level_images_def)
  then show ?thesis
    by (simp only: chat_messages_def process_messages_map ms)
qed

lemma chat_messages_last_user:
  assumes i: "i < length (Messages req)"
    and user: "MessageWithImages.Role (Messages req ! i) = ChatMessageRoleUser"
    and last: "\<forall>j. i < j \<and> j < length (Messages req) \<longrightarrow>
                 MessageWithImages.Role (Messages req ! j) \<noteq> ChatMessageRoleUser"
    and top: "CustomChatRequest.Images req \<noteq> []"
  shows "chat_messages req =
    (map (\<lambda>c. process_message c (stdMsg c)) (Messages req))
      [i := \<lparr>Role = ChatMessageRoleUser, Content = '''',
             MultiContent =
               TextPart (MessageWithImages.Content (Messages req ! i))
               # map (\<lambda>img. ImageURLPart (formatImageForAPI img))
                   (filter (\<lambda>img. img \<noteq> '''') (MessageWithImages.Images (Messages req ! i)))
               @ map (\<lambda>img. ImageURLPart (formatImageForAPI img)) (CustomChatRequest.Images req)\<rparr>]"
proof -
  let ?c = "Messages req ! i"
  let ?ms = "map (\<lambda>c. process_message c (stdMsg c)) (Messages req)"
  have len: "length ?ms = length (Messages req)" by simp
  have role: "Role (?ms ! j) = MessageWithImages.Role (Messages req ! j)"
    if "j < length (Messages req)" for j
    using that by (simp add: process_message_Role)
  have "lastUserMsgIndex_from ?ms (length ?ms) = Some i"
    unfolding lastUserMsgIndex_from_Some len using i user last role by auto
  moreover have msi: "?ms ! i = process_message ?c (stdMsg ?c)"
    using i by simp
  moreover have "0 < length ?ms" using i by (cases "Messages req") simp_all
  ultimately have "process_top_level_images (CustomChatRequest.Images req) ?ms =
      ?ms[i := (process_message ?c (stdMsg ?c))\<lparr>Content := '''',
         MultiContent := top_level_images_loop (CustomChatRequest.Images req)
           (if length (MultiContent (process_message ?c (stdMsg ?c))) > 0
            then MultiContent (process_message ?c (stdMsg ?c))
            else [TextPart (Content (process_message ?c (stdMsg ?c)))])\<rparr>]"
    using top by (simp add: process_top_level_images_def Let_def)
  also have "(process_message ?c (stdMsg ?c))\<lparr>Content := '''',
         MultiContent := top_level_images_loop (CustomChatRequest.Images req)
           (if length (MultiContent (process_message ?c (stdMsg ?c))) > 0
            then MultiContent (process_message ?c (stdMsg ?c))
            else [TextPart (Content (process_message ?c (stdMsg ?c)))])\<rparr>
      = \<lparr>Role = ChatMessageRoleUser, Content = '''',
         MultiContent =
           TextPart (MessageWithImages.Content ?c)
           # map (\<lambda>img. ImageURLPart (formatImageForAPI img))
               (filter (\<lambda>img. img \<noteq> '''') (MessageWithImages.Images ?c))
           @ map (\<lambda>img. ImageURLPart (formatImageForAPI img)) (CustomChatRequest.Images req)\<rparr>"
    unfolding process_message_items [OF user] top_level_images_loop_eq
    using process_message_Role [of ?c] user by simp
  finally show ?thesis
    by (simp only: chat_messages_def process_messages_map)
qed

text \<open>
  Claim C4, as amended. With a non-empty top-level image list, the last
  message with role \<^verbatim>\<open>user\<close> ends with these content parts: one text part
  holding the original text, then one image part for every non-empty
  message-scoped image in the original order, then one image part for every
  top-level image in the original order. The message's text field is cleared
  and every other message is what the loop over the messages made of it. When
  no message has the role \<^verbatim>\<open>user\<close>, the top-level images go nowhere: every
  message is the plain conversion of the request's message. The top-level list
  is taken without empty entries here.
\<close>

theorem chat_messages_images:
  "(i < length (Messages req) \<and>
    MessageWithImages.Role (Messages req ! i) = ChatMessageRoleUser \<and>
    (\<forall>j. i < j \<and> j < length (Messages req) \<longrightarrow>
       MessageWithImages.Role (Messages req ! j) \<noteq> ChatMessageRoleUser) \<and>
    CustomChatRequest.Images req \<noteq> [] \<and> '''' \<notin> set (CustomChatRequest.Images req) \<longrightarrow>
      length (chat_messages req) = length (Messages req) \<and>
      chat_messages req ! i =
        \<lparr>Role = ChatMessageRoleUser, Content = '''',
         MultiContent =
           TextPart (MessageWithImages.Content (Messages req ! i))
           # map (\<lambda>img. ImageURLPart (formatImageForAPI img))
               (filter (\<lambda>img. img \<noteq> '''') (MessageWithImages.Images (Messages req ! i)))
           @ map (\<lambda>img. ImageURLPart (formatImageForAPI img)) (CustomChatRequest.Images req)\<rparr> \<and>
      (\<forall>j < length (Messages req). j \<noteq> i \<longrightarrow>
         chat_messages req ! j = process_message (Messages req ! j) (stdMsg (Messages req ! j)))) \<and>
   ((\<forall>m \<in> set (Messages req). MessageWithImages.Role m \<noteq> ChatMessageRoleUser) \<longrightarrow>
      chat_messages req = map stdMsg (Messages req))"
proof (intro conjI impI)
  assume h: "i < length (Messages req) \<and>
    MessageWithImages.Role (Messages req ! i) = ChatMessageRoleUser \<and>
    (\<forall>j. i < j \<and> j < length (Messages req) \<longrightarrow>
       MessageWithImages.Role (Messages req ! j) \<noteq> ChatMessageRoleUser) \<and>
    CustomChatRequest.Images req \<noteq> [] \<and> '''' \<notin> set (CustomChatRequest.Images req)"
  then have eq: "chat_messages req =
    (map (\<lambda>c. process_message c (stdMsg c)) (Messages req))
      [i := \<lparr>Role = ChatMessageRoleUser, Content = '''',
             MultiContent =
               TextPart (MessageWithImages.Content (Messages req ! i))
               # map (\<lambda>img. ImageURLPart (formatImageForAPI img))
                   (filter (\<lambda>img. img \<noteq> '''') (MessageWithImages.Images (Messages req ! i)))
               @ map (\<lambda>img. ImageURLPart (formatImageForAPI img)) (CustomChatRequest.Images req)\<rparr>]"
    by (intro chat_messages_last_user) simp_all
  show "length (chat_messages req) = length (Messages req)"
    by (rule chat_messages_length)
  show "chat_messages req ! i =
        \<lparr>Role = ChatMessageRoleUser, Content = '''',
         MultiContent =
           TextPart (MessageWithImages.Content (Messages req ! i))
           # map (\<lambda>img. ImageURLPart (formatImageForAPI img))
               (filter (\<lambda>img. img \<noteq> '''') (MessageWithImages.Images (Messages req ! i)))
           @ map (\<lambda>img. ImageURLPart (formatImageForAPI img)) (CustomChatRequest.Images req)\<rparr>"
    using h by (simp add: eq)
  show "\<forall>j < length (Messages req). j \<noteq> i \<longrightarrow>
         chat_messages req ! j = process_message (Messages req ! j) (stdMsg (Messages req ! j))"
    by (simp add: eq)
next
  assume "\<forall>m \<in> set (Messages req). MessageWithImages.Role m \<noteq> ChatMessageRoleUser"
  then show "chat_messages req = map stdMsg (Messages req)"
    by (rule chat_messages_no_user)
qed

text \<open>A request whose second message is the last user message, with an empty
  and a PNG image of its own and a JPEG at the top level; and a request
  without a user message.\<close>

theorem chat_messages_images_witness:
  "chat_messages
     \<lparr>CustomChatRequest.Model = ''m'',
      Messages = [\<lparr>MessageWithImages.Role = ''system'', Content = ''be brief'', Images = []\<rparr>,
                  \<lparr>MessageWithImages.Role = ''user'', Content = ''hi'',
                   Images = ['''', ''iVBORw0KGgo='']\<rparr>,
                  \<lparr>MessageWithImages.Role = ''assistant'', Content = ''ok'', Images = []\<rparr>],
      Stream = None, Images = [''/9j/4AAQ'']\<rparr> ! 1
     = \<lparr>Role = ''user'', Content = '''',
        MultiContent = [TextPart ''hi'', ImageURLPart ''data:image/png;base64,iVBORw0KGgo='',
                        ImageURLPart ''data:image/jpeg;base64,/9j/4AAQ'']\<rparr> \<and>
   chat_messages
     \<lparr>CustomChatRequest.Model = ''m'',
      Messages = [\<lparr>MessageWithImages.Role = ''system'', Content = ''be brief'', Images = []\<rparr>],
      Stream = None, Images = [''/9j/4AAQ'']\<rparr>
     = [\<lparr>Role = ''system'', Content = ''be brief'', MultiContent = []\<rparr>]"
proof -
  have f1: "formatImageForAPI ''iVBORw0KGgo='' = ''data:image/png;base64,iVBORw0KGgo=''"
    by code_simp
  have f2: "formatImageForAPI ''/9j/4AAQ'' = ''data:image/jpeg;base64,/9j/4AAQ''"
    by code_simp
  have later: "\<forall>j. 1 < j \<and> j < length [a, b, c] \<longrightarrow>
      MessageWithImages.Role ([a, b, c] ! j) \<noteq> ChatMessageRoleUser"
    if "MessageWithImages.Role c \<noteq> ChatMessageRoleUser" for a b c :: MessageWithImages
  proof (intro allI impI)
    fix j :: nat assume "1 < j \<and> j < length [a, b, c]"
    then have "j = 2" by simp
    with that show "MessageWithImages.Role ([a, b, c] ! j) \<noteq> ChatMessageRoleUser" by simp
  qed
  show ?thesis
    using chat_messages_images [of 1
        "\<lparr>CustomChatRequest.Model = ''m'',
          Messages = [\<lparr>MessageWithImages.Role = ''system'', Content = ''be brief'', Images = []\<rparr>,
                      \<lparr>MessageWithImages.Role = ''user'', Content = ''hi'',
                       Images = ['''', ''iVBORw0KGgo='']\<rparr>,
                      \<lparr>MessageWithImages.Role = ''assistant'', Content = ''ok'', Images = []\<rparr>],
          Stream = None, Images = [''/9j/4AAQ'']\<rparr>"]
      chat_messages_images [of 0
        "\<lparr>CustomChatRequest.Model = ''m'',
          Messages = [\<lparr>MessageWithImages.Role = ''system'', Content = ''be brief'', Images = []\<rparr>],
          Stream = None, Images = [''/9j/4AAQ'']\<rparr>"]
      later [of "\<lparr>MessageWithImages.Role = ''assistant'', Content = ''ok'', Images = []\<rparr>"]
    by (simp add: f1 f2 ChatMessageRoleUser_def stdMsg_def)
qed

text \<open>
  Claim C4 as the specification states it fails: a user message with two
  images of its own, one of them empty, and one top-level image ends with
  two image parts, not with one per image.
\<close>

theorem chat_messages_images_counterexample:
  "MultiContent (chat_messages
     \<lparr>CustomChatRequest.Model = ''m'',
      Messages = [\<lparr>MessageWithImages.Role = ''user'', Content = ''hi'',
                   Images = ['''', ''iVBORw0KGgo='']\<rparr>],
      Stream = None, Images = [''/9j/4AAQ'']\<rparr> ! 0)
     = [TextPart ''hi'', ImageURLPart ''data:image/png;base64,iVBORw0KGgo='',
        ImageURLPart ''data:image/jpeg;base64,/9j/4AAQ''] \<and>
   length (MultiContent (chat_messages
     \<lparr>CustomChatRequest.Model = ''m'',
      Messages = [\<lparr>MessageWithImages.Role = ''user'', Content = ''hi'',
                   Images = ['''', ''iVBORw0KGgo='']\<rparr>],
      Stream = None, Images = [''/9j/4AAQ'']\<rparr> ! 0))
     \<noteq> 1 + length ['''', ''iVBORw0KGgo=''] + length [''/9j/4AAQ'']"
  by code_simp

section \<open>Empty image entries\<close>

text \<open>The loop over a message's own images and the loop of \<^verbatim>\<open>Generate\<close> and
  \<^verbatim>\<open>GenerateStream\<close> make no content part for an empty entry.\<close>

lemma message_images_loop_skips_empty:
  "message_images_loop (xs @ '''' # ys) contentItems = message_images_loop (xs @ ys) contentItems"
  by (simp add: message_images_loop_eq)

lemma generate_images_loop_skips_empty:
  "generate_images_loop (xs @ '''' # ys) contentItems = generate_images_loop (xs @ ys) contentItems"
  by (simp add: generate_images_loop_eq)

text \<open>
  Claim C7 fails on the top-level image list of \<^verbatim>\<open>/api/chat\<close>: its loop has no
  test for an empty entry, so an empty top-level image becomes an image part
  with the empty URL that \<^verbatim>\<open>formatImageForAPI\<close> returns for it.
\<close>

theorem top_level_empty_image_kept:
  "chat_messages
     \<lparr>CustomChatRequest.Model = ''m'',
      Messages = [\<lparr>MessageWithImages.Role = ''user'', Content = ''hi'', Images = []\<rparr>],
      Stream = None, Images = ['''']\<rparr>
     = [\<lparr>Role = ''user'', Content = '''',
         MultiContent = [TextPart ''hi'', ImageURLPart '''']\<rparr>]"
  by code_simp

section \<open>The streaming loops\<close>

text \<open>As long as every event has a choice, the loop writes one line per
  event, in the order of the events, and carries the last non-empty finish
  reason of a first choice along.\<close>

lemma upt_zip_Cons:
  "zip [a..<a + Suc n] (e # es) = (a, e) # zip [Suc a..<Suc a + n] es"
  by (simp add: upt_conv_Cons)

lemma chat_stream_loop_run:
  assumes "\<forall>e \<in> set pre. Choices e \<noteq> []"
  shows "chat_stream_loop m clock (pre @ rest) fin fr w =
     chat_stream_loop m clock rest fin
       (last (fr # filter (\<lambda>r. r \<noteq> '''') (map (\<lambda>e. FinishReason (Choices e ! 0)) pre)))
       (w @ map (\<lambda>(k, e).
                  JObject [(''model'', JString m),
                           (''created_at'', JString (clock k)),
                           (''message'', JObject [(''role'', JString ''assistant''),
                              (''content'', JString (DeltaContent (Choices e ! 0)))]),
                           (''done'', JBool False)])
              (zip [Suc (length w)..<Suc (length w) + length pre] pre))"
  using assms
proof (induction pre arbitrary: fr w)
  case Nil
  then show ?case by simp
next
  case (Cons e es)
  then have ne: "Choices e \<noteq> []" and rest: "\<forall>e \<in> set es. Choices e \<noteq> []"
    by simp_all
  show ?case
    unfolding append_Cons length_Cons upt_zip_Cons
    using ne by (simp add: Let_def Cons.IH [OF rest])
qed

lemma generate_stream_loop_run:
  assumes "\<forall>e \<in> set pre. Choices e \<noteq> []"
  shows "generate_stream_loop m clock (pre @ rest) fin fr w =
     generate_stream_loop m clock rest fin
       (last (fr # filter (\<lambda>r. r \<noteq> '''') (map (\<lambda>e. FinishReason (Choices e ! 0)) pre)))
       (w @ map (\<lambda>(k, e).
                  JObject [(''model'', JString m),
                           (''created_at'', JString (clock k)),
                           (''response'', JString (DeltaContent (Choices e ! 0))),
                           (''done'', JBool False)])
              (zip [Suc (length w)..<Suc (length w) + length pre] pre))"
  using assms
proof (induction pre arbitrary: fr w)
  case Nil
  then show ?case by simp
next
  case (Cons e es)
  then have ne: "Choices e \<noteq> []" and rest: "\<forall>e \<in> set es. Choices e \<noteq> []"
    by simp_all
  show ?case
    unfolding append_Cons length_Cons upt_zip_Cons
    using ne by (simp add: Let_def Cons.IH [OF rest])
qed

lemma finish_reason_default:
  "(if last ('''' # filter (\<lambda>r. r \<noteq> '''') rs) = '''' then ''stop''
    else last ('''' # filter (\<lambda>r. r \<noteq> '''') rs))
   = last (''stop'' # filter (\<lambda>r. r \<noteq> '''') rs)"
proof (cases "filter (\<lambda>r. r \<noteq> '''') rs = []")
  case True
  then show ?thesis by simp
next
  case False
  then have "last (filter (\<lambda>r. r \<noteq> '''') rs) \<in> set (filter (\<lambda>r. r \<noteq> '''') rs)"
    by (rule last_in_set)
  then have "last (filter (\<lambda>r. r \<noteq> '''') rs) \<noteq> ''''" by simp
  with False show ?thesis by simp
qed

text \<open>The three ways a streamed request can go, from the open stream on.\<close>

lemma chat_stream_loop_events:
  assumes "\<forall>e \<in> set (events stream). Choices e \<noteq> []"
  shows "chat_stream_loop m clock (events stream) fin '''' [] =
     chat_stream_loop m clock [] fin
       (last ('''' # filter (\<lambda>r. r \<noteq> '''')
          (map (\<lambda>e. FinishReason (Choices e ! 0)) (events stream))))
       (map (\<lambda>(k, e).
               JObject [(''model'', JString m),
                        (''created_at'', JString (clock k)),
                        (''message'', JObject [(''role'', JString ''assistant''),
                           (''content'', JString (DeltaContent (Choices e ! 0)))]),
                        (''done'', JBool False)])
          (zip [Suc 0..<Suc (length (events stream))] (events stream)))"
proof -
  have "chat_stream_loop m clock (events stream @ []) fin '''' [] =
     chat_stream_loop m clock [] fin
       (last ('''' # filter (\<lambda>r. r \<noteq> '''')
          (map (\<lambda>e. FinishReason (Choices e ! 0)) (events stream))))
       ([] @ map (\<lambda>(k, e).
               JObject [(''model'', JString m),
                        (''created_at'', JString (clock k)),
                        (''message'', JObject [(''role'', JString ''assistant''),
                           (''content'', JString (DeltaContent (Choices e ! 0)))]),
                        (''done'', JBool False)])
          (zip [Suc (length ([] :: json list))..<Suc (length ([] :: json list)) + length (events stream)]
             (events stream)))"
    using assms by (rule chat_stream_loop_run)
  then show ?thesis
    by (simp only: append_Nil append_Nil2 list.size add_Suc add_0)
qed

lemma generate_stream_loop_events:
  assumes "\<forall>e \<in> set (events stream). Choices e \<noteq> []"
  shows "generate_stream_loop m clock (events stream) fin '''' [] =
     generate_stream_loop m clock [] fin
       (last ('''' # filter (\<lambda>r. r \<noteq> '''')
          (map (\<lambda>e. FinishReason (Choices e ! 0)) (events stream))))
       (map (\<lambda>(k, e).
               JObject [(''model'', JString m),
                        (''created_at'', JString (clock k)),
                        (''response'', JString (DeltaContent (Choices e ! 0))),
                        (''done'', JBool False)])
          (zip [Suc 0..<Suc (length (events stream))] (events stream)))"
proof -
  have "generate_stream_loop m clock (events stream @ []) fin '''' [] =
     generate_stream_loop m clock [] fin
       (last ('''' # filter (\<lambda>r. r \<noteq> '''')
          (map (\<lambda>e. FinishReason (Choices e ! 0)) (events stream))))
       ([] @ map (\<lambda>(k, e).
               JObject [(''model'', JString m),
                        (''created_at'', JString (clock k)),
                        (''response'', JString (DeltaContent (Choices e ! 0))),
                        (''done'', JBool False)])
          (zip [Suc (length ([] :: json list))..<Suc (length ([] :: json list)) + length (events stream)]
             (events stream)))"
    using assms by (rule generate_stream_loop_run)
  then show ?thesis
    by (simp only: append_Nil append_Nil2 list.size add_Suc add_0)
qed

lemma chat_stream_EOF:
  assumes "\<forall>e \<in> set (events stream). Choices e \<noteq> []" "ending stream = EOF"
  shows "chat_stream m clock stream =
     NDJSON
       (map (\<lambda>(k, e).
               JObject [(''model'', JString m),
                        (''created_at'', JString (clock k)),
                        (''message'', JObject [(''role'', JString ''assistant''),
                           (''content'', JString (DeltaContent (Choices e ! 0)))]),
                        (''done'', JBool False)])
          (zip [Suc 0..<Suc (length (events stream))] (events stream))
        @ [JObject [(''model'', JString m),
                    (''created_at'', JString (clock (Suc (length (events stream))))),
                    (''message'', JObject [(''role'', JString ''assistant''),
                       (''content'', JString '''')]),
                    (''done'', JBool True),
                    (''finish_reason'',
                       JString (last (''stop'' # filter (\<lambda>r. r \<noteq> '''')
                          (map (\<lambda>e. FinishReason (Choices e ! 0)) (events stream))))),
                    (''total_duration'', JNumber 0),
                    (''load_duration'', JNumber 0),
                    (''prompt_eval_count'', JNumber 0),
                    (''eval_count'', JNumber 0),
                    (''eval_duration'', JNumber 0)]])
       Returned"
proof -
  have len: "length (map (\<lambda>(k, e).
               JObject [(''model'', JString m),
                        (''created_at'', JString (clock k)),
                        (''message'', JObject [(''role'', JString ''assistant''),
                           (''content'', JString (DeltaContent (Choices e ! 0)))]),
                        (''done'', JBool False)])
          (zip [Suc 0..<Suc (length (events stream))] (events stream))) = length (events stream)"
    by (simp del: upt_Suc)
  show ?thesis
    unfolding chat_stream_def assms(2) chat_stream_loop_events [OF assms(1)] chat_stream_loop.simps
    by (simp only: prod.case loop_exit.case Let_def finish_reason_default len)
qed

lemma generate_stream_EOF:
  assumes "\<forall>e \<in> set (events stream). Choices e \<noteq> []" "ending stream = EOF"
  shows "generate_stream m clock stream =
     NDJSON
       (map (\<lambda>(k, e).
               JObject [(''model'', JString m),
                        (''created_at'', JString (clock k)),
                        (''response'', JString (DeltaContent (Choices e ! 0))),
                        (''done'', JBool False)])
          (zip [Suc 0..<Suc (length (events stream))] (events stream))
        @ [JObject [(''model'', JString m),
                    (''created_at'', JString (clock (Suc (length (events stream))))),
                    (''response'', JString ''''),
                    (''done'', JBool True),
                    (''done_reason'',
                       JString (last (''stop'' # filter (\<lambda>r. r \<noteq> '''')
                          (map (\<lambda>e. FinishReason (Choices e ! 0)) (events stream))))),
                    (''context'', JArray [JNumber 1, JNumber 2, JNumber 3]),
                    (''total_duration'', JNumber 1000000000),
                    (''load_duration'', JNumber 5000000),
                    (''prompt_eval_count'', JNumber 20),
                    (''prompt_eval_duration'', JNumber 200000000),
                    (''eval_count'', JNumber 100),
                    (''eval_duration'', JNumber 800000000)]])
       Returned"
proof -
  have len: "length (map (\<lambda>(k, e).
               JObject [(''model'', JString m),
                        (''created_at'', JString (clock k)),
                        (''response'', JString (DeltaContent (Choices e ! 0))),
                        (''done'', JBool False)])
          (zip [Suc 0..<Suc (length (events stream))] (events stream))) = length (events stream)"
    by (simp del: upt_Suc)
  show ?thesis
    unfolding generate_stream_def assms(2) generate_stream_loop_events [OF assms(1)] generate_stream_loop.simps
    by (simp only: prod.case loop_exit.case Let_def finish_reason_default len)
qed

lemma chat_stream_RecvError:
  assumes "\<forall>e \<in> set (events stream). Choices e \<noteq> []" "ending stream = RecvError err"
  shows "chat_stream m clock stream =
     NDJSON
       (map (\<lambda>(k, e).
               JObject [(''model'', JString m),
                        (''created_at'', JString (clock k)),
                        (''message'', JObject [(''role'', JString ''assistant''),
                           (''content'', JString (DeltaContent (Choices e ! 0)))]),
                        (''done'', JBool False)])
          (zip [Suc 0..<Suc (length (events stream))] (events stream))
        @ [JObject [(''error'', JString (''Stream error: '' @ err))]])
       Returned"
  unfolding chat_stream_def assms(2) chat_stream_loop_events [OF assms(1)] chat_stream_loop.simps
  by (simp only: prod.case loop_exit.case)

lemma generate_stream_RecvError:
  assumes "\<forall>e \<in> set (events stream). Choices e \<noteq> []" "ending stream = RecvError err"
  shows "generate_stream m clock stream =
     NDJSON
       (map (\<lambda>(k, e).
               JObject [(''model'', JString m),
                        (''created_at'', JString (clock k)),
                        (''response'', JString (DeltaContent (Choices e ! 0))),
                        (''done'', JBool False)])
          (zip [Suc 0..<Suc (length (events stream))] (events stream))
        @ [JObject [(''error'', JString (''Stream error: '' @ err))]])
       Returned"
  unfolding generate_stream_def assms(2) generate_stream_loop_events [OF assms(1)] generate_stream_loop.simps
  by (simp only: prod.case loop_exit.case)

text \<open>With a choice in every event, the line counts are those of the
  specification: the events and one terminal line at the end of the stream,
  the events so far and one error line at a transport error.\<close>

lemma stream_line_count:
  assumes "\<forall>e \<in> set (events stream). Choices e \<noteq> []"
  shows "(ending stream = EOF \<longrightarrow>
            (\<exists>lines. chat_stream m clock stream = NDJSON lines Returned
               \<and> length lines = length (events stream) + 1) \<and>
            (\<exists>lines. generate_stream m clock stream = NDJSON lines Returned
               \<and> length lines = length (events stream) + 1)) \<and>
         (ending stream = RecvError err \<longrightarrow>
            (\<exists>lines. chat_stream m clock stream
                 = NDJSON (lines @ [JObject [(''error'', JString (''Stream error: '' @ err))]]) Returned
               \<and> length lines = length (events stream)
               \<and> (\<forall>l \<in> set lines. field l ''done'' = Some (JBool False))) \<and>
            (\<exists>lines. generate_stream m clock stream
                 = NDJSON (lines @ [JObject [(''error'', JString (''Stream error: '' @ err))]]) Returned
               \<and> length lines = length (events stream)
               \<and> (\<forall>l \<in> set lines. field l ''done'' = Some (JBool False))))"
proof (intro conjI impI)
  assume e: "ending stream = EOF"
  show "\<exists>lines. chat_stream m clock stream = NDJSON lines Returned
               \<and> length lines = length (events stream) + 1"
    unfolding chat_stream_EOF [OF assms e] by (simp del: upt_Suc)
  show "\<exists>lines. generate_stream m clock stream = NDJSON lines Returned
               \<and> length lines = length (events stream) + 1"
    unfolding generate_stream_EOF [OF assms e] by (simp del: upt_Suc)
next
  assume e: "ending stream = RecvError err"
  show "\<exists>lines. chat_stream m clock stream
                 = NDJSON (lines @ [JObject [(''error'', JString (''Stream error: '' @ err))]]) Returned
               \<and> length lines = length (events stream)
               \<and> (\<forall>l \<in> set lines. field l ''done'' = Some (JBool False))"
    unfolding chat_stream_RecvError [OF assms e] by (auto simp del: upt_Suc)
  show "\<exists>lines. generate_stream m clock stream
                 = NDJSON (lines @ [JObject [(''error'', JString (''Stream error: '' @ err))]]) Returned
               \<and> length lines = length (events stream)
               \<and> (\<forall>l \<in> set lines. field l ''done'' = Some (JBool False))"
    unfolding generate_stream_RecvError [OF assms e] by (auto simp del: upt_Suc)
qed

section \<open>The terminal envelope of a stream\<close>

text \<open>
  Claim C3, as amended. A streamed request whose events all hold a choice and
  whose stream ends with \<^verbatim>\<open>io.EOF\<close> writes one line per event and then exactly
  one terminal envelope: \<^verbatim>\<open>done\<close> is true, the text is empty, the finish
  reason is the last non-empty one seen on the first choice of an event, or
  \<^verbatim>\<open>stop\<close> when none was seen, and the statistics are fixed numbers: all zero
  on \<^verbatim>\<open>/api/chat\<close>, the placeholders of the source on \<^verbatim>\<open>/api/generate\<close>. The
  lines before it have \<^verbatim>\<open>done\<close> false and no finish reason.
\<close>

theorem stream_terminal_envelope:
  "(\<forall>e \<in> set (events stream). Choices e \<noteq> []) \<and> ending stream = EOF \<longrightarrow>
     (\<exists>lines.
        chat_stream m clock stream =
          NDJSON (lines @ [JObject [(''model'', JString m),
                    (''created_at'', JString (clock (Suc (length (events stream))))),
                    (''message'', JObject [(''role'', JString ''assistant''),
                       (''content'', JString '''')]),
                    (''done'', JBool True),
                    (''finish_reason'',
                       JString (last (''stop'' # filter (\<lambda>r. r \<noteq> '''')
                          (map (\<lambda>e. FinishReason (Choices e ! 0)) (events stream))))),
                    (''total_duration'', JNumber 0),
                    (''load_duration'', JNumber 0),
                    (''prompt_eval_count'', JNumber 0),
                    (''eval_count'', JNumber 0),
                    (''eval_duration'', JNumber 0)]]) Returned \<and>
        length lines = length (events stream) \<and>
        (\<forall>l \<in> set lines. field l ''done'' = Some (JBool False) \<and>
           field l ''finish_reason'' = None \<and> field l ''done_reason'' = None)) \<and>
     (\<exists>lines.
        generate_stream m clock stream =
          NDJSON (lines @ [JObject [(''model'', JString m),
                    (''created_at'', JString (clock (Suc (length (events stream))))),
                    (''response'', JString ''''),
                    (''done'', JBool True),
                    (''done_reason'',
                       JString (last (''stop'' # filter (\<lambda>r. r \<noteq> '''')
                          (map (\<lambda>e. FinishReason (Choices e ! 0)) (events stream))))),
                    (''context'', JArray [JNumber 1, JNumber 2, JNumber 3]),
                    (''total_duration'', JNumber 1000000000),
                    (''load_duration'', JNumber 5000000),
                    (''prompt_eval_count'', JNumber 20),
                    (''prompt_eval_duration'', JNumber 200000000),
                    (''eval_count'', JNumber 100),
                    (''eval_duration'', JNumber 800000000)]]) Returned \<and>
        length lines = length (events stream) \<and>
        (\<forall>l \<in> set lines. field l ''done'' = Some (JBool False) \<and>
           field l ''finish_reason'' = None \<and> field l ''done_reason'' = None))"
proof (intro impI conjI)
  assume h: "(\<forall>e \<in> set (events stream). Choices e \<noteq> []) \<and> ending stream = EOF"
  then have wf: "\<forall>e \<in> set (events stream). Choices e \<noteq> []" and e: "ending stream = EOF"
    by simp_all
  show "\<exists>lines.
        chat_stream m clock stream =
          NDJSON (lines @ [JObject [(''model'', JString m),
                    (''created_at'', JString (clock (Suc (length (events stream))))),
                    (''message'', JObject [(''role'', JString ''assistant''),
                       (''content'', JString '''')]),
                    (''done'', JBool True),
                    (''finish_reason'',
                       JString (last (''stop'' # filter (\<lambda>r. r \<noteq> '''')
                          (map (\<lambda>e. FinishReason (Choices e ! 0)) (events stream))))),
                    (''total_duration'', JNumber 0),
                    (''load_duration'', JNumber 0),
                    (''prompt_eval_count'', JNumber 0),
                    (''eval_count'', JNumber 0),
                    (''eval_duration'', JNumber 0)]]) Returned \<and>
        length lines = length (events stream) \<and>
        (\<forall>l \<in> set lines. field l ''done'' = Some (JBool False) \<and>
           field l ''finish_reason'' = None \<and> field l ''done_reason'' = None)"
    unfolding chat_stream_EOF [OF wf e] by (auto simp del: upt_Suc)
  show "\<exists>lines.
        generate_stream m clock stream =
          NDJSON (lines @ [JObject [(''model'', JString m),
                    (''created_at'', JString (clock (Suc (length (events stream))))),
                    (''response'', JString ''''),
                    (''done'', JBool True),
                    (''done_reason'',
                       JString (last (''stop'' # filter (\<lambda>r. r \<noteq> '''')
                          (map (\<lambda>e. FinishReason (Choices e ! 0)) (events stream))))),
                    (''context'', JArray [JNumber 1, JNumber 2, JNumber 3]),
                    (''total_duration'', JNumber 1000000000),
                    (''load_duration'', JNumber 5000000),
                    (''prompt_eval_count'', JNumber 20),
                    (''prompt_eval_duration'', JNumber 200000000),
                    (''eval_count'', JNumber 100),
                    (''eval_duration'', JNumber 800000000)]]) Returned \<and>
        length lines = length (events stream) \<and>
        (\<forall>l \<in> set lines. field l ''done'' = Some (JBool False) \<and>
           field l ''finish_reason'' = None \<and> field l ''done_reason'' = None)"
    unfolding generate_stream_EOF [OF wf e] by (auto simp del: upt_Suc)
qed

text \<open>Two events, the second with the finish reason \<^verbatim>\<open>length\<close>.\<close>

theorem stream_terminal_envelope_witness:
  "chat_stream ''m'' (\<lambda>k. ''t'')
     \<lparr>events = [\<lparr>Choices = [\<lparr>DeltaContent = ''Hel'', FinishReason = ''''\<rparr>]\<rparr>,
                \<lparr>Choices = [\<lparr>DeltaContent = ''lo'', FinishReason = ''length''\<rparr>]\<rparr>],
      ending = EOF\<rparr>
   = NDJSON
       [JObject [(''model'', JString ''m''), (''created_at'', JString ''t''),
                 (''message'', JObject [(''role'', JString ''assistant''),
                    (''content'', JString ''Hel'')]),
                 (''done'', JBool False)],
        JObject [(''model'', JString ''m''), (''created_at'', JString ''t''),
                 (''message'', JObject [(''role'', JString ''assistant''),
                    (''content'', JString ''lo'')]),
                 (''done'', JBool False)],
        JObject [(''model'', JString ''m''), (''created_at'', JString ''t''),
                 (''message'', JObject [(''role'', JString ''assistant''),
                    (''content'', JString '''')]),
                 (''done'', JBool True),
                 (''finish_reason'', JString ''length''),
                 (''total_duration'', JNumber 0), (''load_duration'', JNumber 0),
                 (''prompt_eval_count'', JNumber 0), (''eval_count'', JNumber 0),
                 (''eval_duration'', JNumber 0)]]
       Returned"
proof -
  let ?stream = "\<lparr>events = [\<lparr>Choices = [\<lparr>DeltaContent = ''Hel'', FinishReason = ''''\<rparr>]\<rparr>,
                \<lparr>Choices = [\<lparr>DeltaContent = ''lo'', FinishReason = ''length''\<rparr>]\<rparr>],
      ending = EOF\<rparr>"
  from stream_terminal_envelope [of ?stream "''m''" "\<lambda>k. ''t''"]
  obtain lines where
    out: "chat_stream ''m'' (\<lambda>k. ''t'') ?stream =
      NDJSON (lines @
        [JObject [(''model'', JString ''m''), (''created_at'', JString ''t''),
                 (''message'', JObject [(''role'', JString ''assistant''),
                    (''content'', JString '''')]),
                 (''done'', JBool True),
                 (''finish_reason'', JString ''length''),
                 (''total_duration'', JNumber 0), (''load_duration'', JNumber 0),
                 (''prompt_eval_count'', JNumber 0), (''eval_count'', JNumber 0),
                 (''eval_duration'', JNumber 0)]]) Returned"
    by auto
  have "chat_stream_loop ''m'' (\<lambda>k. ''t'') (events ?stream) (ending ?stream) '''' [] =
      (LoopBreak ''length'',
       [JObject [(''model'', JString ''m''), (''created_at'', JString ''t''),
                 (''message'', JObject [(''role'', JString ''assistant''),
                    (''content'', JString ''Hel'')]),
                 (''done'', JBool False)],
        JObject [(''model'', JString ''m''), (''created_at'', JString ''t''),
                 (''message'', JObject [(''role'', JString ''assistant''),
                    (''content'', JString ''lo'')]),
                 (''done'', JBool False)]])"
    by simp
  then have "lines =
       [JObject [(''model'', JString ''m''), (''created_at'', JString ''t''),
                 (''message'', JObject [(''role'', JString ''assistant''),
                    (''content'', JString ''Hel'')]),
                 (''done'', JBool False)],
        JObject [(''model'', JString ''m''), (''created_at'', JString ''t''),
                 (''message'', JObject [(''role'', JString ''assistant''),
                    (''content'', JString ''lo'')]),
                 (''done'', JBool False)]]"
    using out by (simp add: chat_stream_def)
  with out show ?thesis by simp
qed

text \<open>
  Claim C3 as the specification states it fails on \<^verbatim>\<open>/api/generate\<close>: the
  statistics of its terminal envelope are the placeholders of the source,
  neither zero nor counts taken from the upstream.
\<close>

theorem stream_terminal_envelope_counterexample:
  "generate_stream ''m'' (\<lambda>k. ''t'')
     \<lparr>events = [\<lparr>Choices = [\<lparr>DeltaContent = ''Hi'', FinishReason = ''stop''\<rparr>]\<rparr>],
      ending = EOF\<rparr>
   = NDJSON
       [JObject [(''model'', JString ''m''), (''created_at'', JString ''t''),
                 (''response'', JString ''Hi''), (''done'', JBool False)],
        JObject [(''model'', JString ''m''), (''created_at'', JString ''t''),
                 (''response'', JString ''''), (''done'', JBool True),
                 (''done_reason'', JString ''stop''),
                 (''context'', JArray [JNumber 1, JNumber 2, JNumber 3]),
                 (''total_duration'', JNumber 1000000000),
                 (''load_duration'', JNumber 5000000),
                 (''prompt_eval_count'', JNumber 20),
                 (''prompt_eval_duration'', JNumber 200000000),
                 (''eval_count'', JNumber 100),
                 (''eval_duration'', JNumber 800000000)]]
       Returned \<and>
   (case generate_stream ''m'' (\<lambda>k. ''t'')
           \<lparr>events = [\<lparr>Choices = [\<lparr>DeltaContent = ''Hi'', FinishReason = ''stop''\<rparr>]\<rparr>],
            ending = EOF\<rparr> of
      NDJSON lines _ \<Rightarrow> map (field (last lines)) [''prompt_eval_count'', ''eval_count'']
    | JSON _ _ \<Rightarrow> [])
   = [Some (JNumber 20), Some (JNumber 100)]"
  by (simp add: generate_stream_def)

section \<open>An event without choices\<close>

text \<open>
  Claim C10 fails: both loops test \<^verbatim>\<open>len(response.Choices) > 0\<close> before they
  read the finish reason and then read \<^verbatim>\<open>response.Choices[0].Delta.Content\<close>
  without that test, so an event with an empty \<^verbatim>\<open>Choices\<close> ends the handler
  with the panic of an index out of range, before a line for it is written.
\<close>

theorem stream_choices_index_out_of_range:
  "chat_stream_loop m clock (\<lparr>Choices = []\<rparr> # rest) fin lastFinishReason w = (LoopPanic, w) \<and>
   generate_stream_loop m clock (\<lparr>Choices = []\<rparr> # rest) fin lastFinishReason w = (LoopPanic, w) \<and>
   chat_stream m clock \<lparr>events = [\<lparr>Choices = []\<rparr>], ending = EOF\<rparr> = NDJSON [] Panicked \<and>
   generate_stream m clock \<lparr>events = [\<lparr>Choices = []\<rparr>], ending = EOF\<rparr> = NDJSON [] Panicked"
  by (simp add: chat_stream_def generate_stream_def)

text \<open>
  Claim C2 fails for the same reason: of three events followed by the end
  of the stream, the second without choices, the handlers write the line of
  the first event and nothing else; no terminal line follows.
\<close>

theorem stream_lines_lost_at_empty_choices:
  "chat_stream ''m'' (\<lambda>k. ''t'')
     \<lparr>events = [\<lparr>Choices = [\<lparr>DeltaContent = ''Hel'', FinishReason = ''''\<rparr>]\<rparr>,
                \<lparr>Choices = []\<rparr>,
                \<lparr>Choices = [\<lparr>DeltaContent = ''lo'', FinishReason = ''stop''\<rparr>]\<rparr>],
      ending = EOF\<rparr>
   = NDJSON
       [JObject [(''model'', JString ''m''), (''created_at'', JString ''t''),
                 (''message'', JObject [(''role'', JString ''assistant''),
                    (''content'', JString ''Hel'')]),
                 (''done'', JBool False)]]
       Panicked \<and>
   generate_stream ''m'' (\<lambda>k. ''t'')
     \<lparr>events = [\<lparr>Choices = [\<lparr>DeltaContent = ''Hel'', FinishReason = ''''\<rparr>]\<rparr>,
                \<lparr>Choices = []\<rparr>,
                \<lparr>Choices = [\<lparr>DeltaContent = ''lo'', FinishReason = ''stop''\<rparr>]\<rparr>],
      ending = EOF\<rparr>
   = NDJSON
       [JObject [(''model'', JString ''m''), (''created_at'', JString ''t''),
                 (''response'', JString ''Hel''), (''done'', JBool False)]]
       Panicked"
  by (simp add: chat_stream_def generate_stream_def)

end
